theory Spec2Isabelle
  imports Complex_Main
begin

section \<open>JavaScript values\<close>

text \<open>
  A JavaScript number is a finite value, NaN or one of the infinities. Finite values are
  taken as reals, and a sum or a rounding to one decimal place is the exact value: where
  the code has the double nearest to a value, the development has the value itself. The
  two agree whenever the exact value is a double, as it is for the sum of an integer size
  and an integer step; the rounding of IEEE doubles is outside this development.
\<close>

datatype jsnum = Num real | NaN | PosInf | NegInf

fun isNaN :: "jsnum \<Rightarrow> bool" where
  "isNaN NaN = True"
| "isNaN _ = False"

text \<open>The sum \<open>a + b\<close> of two numbers.\<close>

fun js_add :: "jsnum \<Rightarrow> jsnum \<Rightarrow> jsnum" where
  "js_add (Num a) (Num b) = Num (a + b)"
| "js_add NaN _ = NaN"
| "js_add _ NaN = NaN"
| "js_add PosInf NegInf = NaN"
| "js_add NegInf PosInf = NaN"
| "js_add PosInf _ = PosInf"
| "js_add _ PosInf = PosInf"
| "js_add NegInf _ = NegInf"
| "js_add _ NegInf = NegInf"

text \<open>The comparison \<open>n >= 1\<close>; it is false for NaN.\<close>

fun ge_one :: "jsnum \<Rightarrow> bool" where
  "ge_one (Num r) = (1 \<le> r)"
| "ge_one PosInf = True"
| "ge_one _ = False"

text \<open>The values a key of the toolbar state holds: \<open>boolean | string | number\<close>.\<close>

datatype jsval = VBool bool | VStr string | VNum jsnum

type_synonym format_state = "string \<rightharpoonup> jsval"

text \<open>The initial value of \<open>activeStates\<close> and of \<open>toolbarState\<close>.\<close>

definition initial_states :: format_state where
  "initial_states =
     [''bold'' \<mapsto> VBool False, ''italic'' \<mapsto> VBool False, ''underline'' \<mapsto> VBool False,
      ''justifyLeft'' \<mapsto> VBool False, ''justifyCenter'' \<mapsto> VBool False,
      ''justifyRight'' \<mapsto> VBool False, ''fontSize'' \<mapsto> VNum (Num 12)]"

section \<open>The document tree\<close>

type_synonym nid = nat

text \<open>
  The value of \<open>el.style.fontSize\<close>: the empty string, the \<open>${size}px\<close> the editor
  writes, or any other length already in the content.
\<close>

datatype css_size = NoSize | Px jsnum | OtherSize string

text \<open>
  An element: \<open>htmlElement\<close> says whether it is an \<open>HTMLElement\<close> (an element of SVG or
  MathML is not). \<open>tagName\<close> is what the DOM reports: upper case for an HTML element,
  the name as written for any other.
\<close>

record elem =
  htmlElement :: bool
  tagName :: string
  attrs :: "(string \<times> string) list"
  classList :: "string list"
  fontSize :: css_size
  styleRest :: string

text \<open>
  A node is a text node or an element; each carries its identity, so that the references
  the code keeps (the list \<open>toReplace\<close>, the list \<open>newSpans\<close>, the containers of a range)
  stay meaningful while the tree is rewritten.
\<close>

datatype node = Text nid string | Elem nid elem "node list"

fun nodeId :: "node \<Rightarrow> nid" where
  "nodeId (Text i _) = i"
| "nodeId (Elem i _ _) = i"

fun childNodes :: "node \<Rightarrow> node list" where
  "childNodes (Text _ _) = []"
| "childNodes (Elem _ _ cs) = cs"

fun getAttribute :: "elem \<Rightarrow> string \<Rightarrow> string option" where
  "getAttribute e k = map_of (attrs e) k"

definition removeAttribute :: "string \<Rightarrow> elem \<Rightarrow> elem" where
  "removeAttribute k e = e\<lparr>attrs := filter (\<lambda>kv. fst kv \<noteq> k) (attrs e)\<rparr>"

text \<open>The subtree rooted at the node with a given identity, searched in document order.\<close>

fun find_node :: "nid \<Rightarrow> node \<Rightarrow> node option"
  and find_in :: "nid \<Rightarrow> node list \<Rightarrow> node option" where
  "find_node i (Text j s) = (if i = j then Some (Text j s) else None)"
| "find_node i (Elem j e cs) = (if i = j then Some (Elem j e cs) else find_in i cs)"
| "find_in i [] = None"
| "find_in i (n # ns) = (case find_node i n of Some m \<Rightarrow> Some m | None \<Rightarrow> find_in i ns)"

text \<open>\<open>parentNode\<close>: the element whose child list holds the node.\<close>

fun parent_in :: "nid \<Rightarrow> node \<Rightarrow> node option"
  and parent_in_list :: "nid \<Rightarrow> node list \<Rightarrow> node option" where
  "parent_in i (Text j s) = None"
| "parent_in i (Elem j e cs) =
     (if i \<in> set (map nodeId cs) then Some (Elem j e cs) else parent_in_list i cs)"
| "parent_in_list i [] = None"
| "parent_in_list i (n # ns) =
     (case parent_in i n of Some p \<Rightarrow> Some p | None \<Rightarrow> parent_in_list i ns)"

text \<open>
  The chain from a node up to the root of its tree, the node first: what following
  \<open>parentNode\<close> visits.
\<close>

fun chain_in :: "nid \<Rightarrow> node \<Rightarrow> node list option"
  and chain_in_list :: "nid \<Rightarrow> node list \<Rightarrow> node list option" where
  "chain_in i (Text j s) = (if i = j then Some [Text j s] else None)"
| "chain_in i (Elem j e cs) =
     (if i = j then Some [Elem j e cs]
      else (case chain_in_list i cs of Some ch \<Rightarrow> Some (ch @ [Elem j e cs]) | None \<Rightarrow> None))"
| "chain_in_list i [] = None"
| "chain_in_list i (n # ns) =
     (case chain_in i n of Some ch \<Rightarrow> Some ch | None \<Rightarrow> chain_in_list i ns)"

text \<open>Rewriting the node with a given identity in place, and splicing a list in its place.\<close>

fun modify_node :: "nid \<Rightarrow> (node \<Rightarrow> node) \<Rightarrow> node \<Rightarrow> node"
  and modify_in :: "nid \<Rightarrow> (node \<Rightarrow> node) \<Rightarrow> node list \<Rightarrow> node list" where
  "modify_node i f (Text j s) = (if i = j then f (Text j s) else Text j s)"
| "modify_node i f (Elem j e cs) =
     (if i = j then f (Elem j e cs) else Elem j e (modify_in i f cs))"
| "modify_in i f [] = []"
| "modify_in i f (n # ns) = modify_node i f n # modify_in i f ns"

fun splice_node :: "nid \<Rightarrow> node list \<Rightarrow> node \<Rightarrow> node"
  and splice_in :: "nid \<Rightarrow> node list \<Rightarrow> node list \<Rightarrow> node list" where
  "splice_node i new (Text j s) = Text j s"
| "splice_node i new (Elem j e cs) = Elem j e (splice_in i new cs)"
| "splice_in i new [] = []"
| "splice_in i new (n # ns) =
     (if nodeId n = i then new @ ns else splice_node i new n # splice_in i new ns)"

text \<open>The proper descendants of a node in document order, as \<open>querySelectorAll\<close> visits them.\<close>

fun descendants :: "node \<Rightarrow> node list"
  and descendants_list :: "node list \<Rightarrow> node list" where
  "descendants (Text j s) = []"
| "descendants (Elem j e cs) = descendants_list cs"
| "descendants_list [] = []"
| "descendants_list (n # ns) = n # descendants n @ descendants_list ns"

text \<open>
  The nodes the program can reach: the document, and the trees that were taken out of it
  or never put into it (a removed element stays alive while a list refers to it).
  \<open>nextId\<close> is the identity the next created node gets.
\<close>

record dom =
  document :: node
  detached :: "node list"
  nextId :: nid

definition lookup :: "dom \<Rightarrow> nid \<Rightarrow> node option" where
  "lookup d i =
     (case find_node i (document d) of Some n \<Rightarrow> Some n | None \<Rightarrow> find_in i (detached d))"

definition parentNode :: "dom \<Rightarrow> nid \<Rightarrow> node option" where
  "parentNode d i =
     (case parent_in i (document d) of Some p \<Rightarrow> Some p
      | None \<Rightarrow> parent_in_list i (detached d))"

definition chain :: "dom \<Rightarrow> nid \<Rightarrow> node list" where
  "chain d i =
     (case chain_in i (document d) of Some ch \<Rightarrow> ch
      | None \<Rightarrow> (case chain_in_list i (detached d) of Some ch \<Rightarrow> ch | None \<Rightarrow> []))"

definition forest_modify :: "nid \<Rightarrow> (node \<Rightarrow> node) \<Rightarrow> dom \<Rightarrow> dom" where
  "forest_modify i f d =
     d\<lparr>document := modify_node i f (document d), detached := modify_in i f (detached d)\<rparr>"

definition forest_splice :: "nid \<Rightarrow> node list \<Rightarrow> dom \<Rightarrow> dom" where
  "forest_splice i new d =
     d\<lparr>document := splice_node i new (document d),
       detached := map (splice_node i new) (detached d)\<rparr>"

text \<open>\<open>container.contains(node)\<close>: the node is the container or one of its descendants.\<close>

definition contains_node :: "dom \<Rightarrow> nid \<Rightarrow> nid option \<Rightarrow> bool" where
  "contains_node d c n =
     (case n of None \<Rightarrow> False
      | Some i \<Rightarrow> (case lookup d c of None \<Rightarrow> False
                   | Some t \<Rightarrow> find_node i t \<noteq> None))"

section \<open>The font-size rewrite of the marked elements\<close>

definition markerFont :: string where
  "markerFont = ''cdk-marker-font''"

fun starts_with :: "string \<Rightarrow> string \<Rightarrow> bool" where
  "starts_with [] s = True"
| "starts_with (p # ps) [] = False"
| "starts_with (p # ps) (c # cs) = (p = c \<and> starts_with ps cs)"

text \<open>The substring test of the attribute selector \<open>[style*="..."]\<close>.\<close>

fun contains_str :: "string \<Rightarrow> string \<Rightarrow> bool" where
  "contains_str p [] = (p = [])"
| "contains_str p (c # cs) = (starts_with p (c # cs) \<or> contains_str p cs)"

text \<open>
  The text of the style attribute is the font-size declaration and the other declarations;
  a size the editor wrote (\<open>Px\<close>) never spells the marker.
\<close>

definition style_mentions :: "string \<Rightarrow> elem \<Rightarrow> bool" where
  "style_mentions m e =
     (contains_str m (styleRest e) \<or>
      (case fontSize e of OtherSize s \<Rightarrow> contains_str m s | _ \<Rightarrow> False))"

text \<open>
  The selectors \<open>font[face="cdk-marker-font"]\<close> and \<open>span[style*="cdk-marker-font"]\<close>
  in an HTML document. A type selector names an HTML element whatever the case, and any
  other element by its name as written. The value of \<open>face\<close> on an HTML element is
  compared without regard to ASCII case; the text of \<open>style\<close> is compared as it is.
\<close>

definition ascii_lower :: "char \<Rightarrow> char" where
  "ascii_lower c =
     (case map_of (zip ''ABCDEFGHIJKLMNOPQRSTUVWXYZ'' ''abcdefghijklmnopqrstuvwxyz'') c of
        None \<Rightarrow> c
      | Some l \<Rightarrow> l)"

definition matches_type :: "string \<Rightarrow> elem \<Rightarrow> bool" where
  "matches_type name e =
     (if htmlElement e then map ascii_lower (tagName e) = map ascii_lower name
      else tagName e = name)"

definition face_is :: "string \<Rightarrow> elem \<Rightarrow> bool" where
  "face_is m e =
     (case getAttribute e ''face'' of
        None \<Rightarrow> False
      | Some v \<Rightarrow> if htmlElement e then map ascii_lower v = map ascii_lower m else v = m)"

fun isFontMarker :: "node \<Rightarrow> bool" where
  "isFontMarker (Text _ _) = False"
| "isFontMarker (Elem _ e _) = (matches_type ''font'' e \<and> face_is markerFont e)"

fun isSpanMarker :: "node \<Rightarrow> bool" where
  "isSpanMarker (Text _ _) = False"
| "isSpanMarker (Elem _ e _) = (matches_type ''span'' e \<and> style_mentions markerFont e)"

definition isMarker :: "node \<Rightarrow> bool" where
  "isMarker n = (isFontMarker n \<or> isSpanMarker n)"

definition querySelectorAll :: "(node \<Rightarrow> bool) \<Rightarrow> dom \<Rightarrow> nid \<Rightarrow> nid list" where
  "querySelectorAll sel d c =
     (case lookup d c of None \<Rightarrow> []
      | Some t \<Rightarrow> map nodeId (filter sel (descendants t)))"

text \<open>
  Step 1 of the loop body: every element below the marked one loses its font size, and a
  FONT element below it loses \<open>size\<close> and \<open>face\<close> as well.
\<close>

definition clean_elem :: "elem \<Rightarrow> elem" where
  "clean_elem e =
     (if htmlElement e then
        (let e1 = e\<lparr>fontSize := NoSize\<rparr>
         in if tagName e1 = ''FONT'' then removeAttribute ''face'' (removeAttribute ''size'' e1)
            else e1)
      else e)"

fun clean_node :: "node \<Rightarrow> node"
  and clean_list :: "node list \<Rightarrow> node list" where
  "clean_node (Text j s) = Text j s"
| "clean_node (Elem j e cs) = Elem j (clean_elem e) (clean_list cs)"
| "clean_list [] = []"
| "clean_list (n # ns) = clean_node n # clean_list ns"

fun cleanDescendants :: "node \<Rightarrow> node" where
  "cleanDescendants (Text j s) = Text j s"
| "cleanDescendants (Elem j e cs) = Elem j e (clean_list cs)"

text \<open>
  \<open>x.style.fontSize = `${size}px`\<close>. The style object takes the declaration when it is
  a length, that is for a finite size that is not negative, and ignores the assignment
  otherwise.
\<close>

fun css_valid :: "jsnum \<Rightarrow> bool" where
  "css_valid (Num r) = (0 \<le> r)"
| "css_valid _ = False"

definition set_px :: "jsnum \<Rightarrow> elem \<Rightarrow> elem" where
  "set_px sz e = (if css_valid sz then e\<lparr>fontSize := Px sz\<rparr> else e)"

fun set_px_node :: "jsnum \<Rightarrow> node \<Rightarrow> node" where
  "set_px_node sz (Text j s) = Text j s"
| "set_px_node sz (Elem j e cs) = Elem j (set_px sz e) cs"

text \<open>\<open>document.createElement('span')\<close>.\<close>

definition new_span :: elem where
  "new_span =
     \<lparr>htmlElement = True, tagName = ''SPAN'', attrs = [], classList = [], fontSize = NoSize,
      styleRest = []\<rparr>"

text \<open>
  \<open>span.innerHTML = el.innerHTML\<close> gives the span new nodes, parsed from the HTML text
  of the children of \<open>el\<close>: the children themselves stay where they are. In that text an
  empty text node leaves no trace and text nodes that stand side by side run together,
  so the copy has neither; beyond that the copy has the shape of the original.
\<close>

fun join_text :: "node \<Rightarrow> node list \<Rightarrow> node list" where
  "join_text (Elem j e cs) rest = Elem j e cs # rest"
| "join_text (Text j s) rest =
     (if s = [] then rest
      else (case rest of
              Text k t # ns \<Rightarrow> Text j (s @ t) # ns
            | _ \<Rightarrow> Text j s # rest))"

fun reparsed :: "node \<Rightarrow> node"
  and reparsed_list :: "node list \<Rightarrow> node list" where
  "reparsed (Text j s) = Text j s"
| "reparsed (Elem j e cs) = Elem j e (reparsed_list cs)"
| "reparsed_list [] = []"
| "reparsed_list (n # ns) = join_text (reparsed n) (reparsed_list ns)"

fun clone_node :: "nid \<Rightarrow> node \<Rightarrow> node \<times> nid"
  and clone_list :: "nid \<Rightarrow> node list \<Rightarrow> node list \<times> nid" where
  "clone_node k (Text j s) = (Text k s, Suc k)"
| "clone_node k (Elem j e cs) = (case clone_list (Suc k) cs of (cs', k') \<Rightarrow> (Elem k e cs', k'))"
| "clone_list k [] = ([], k)"
| "clone_list k (n # ns) =
     (case clone_node k n of (n', k1) \<Rightarrow>
        (case clone_list k1 ns of (ns', k2) \<Rightarrow> (n' # ns', k2)))"

text \<open>The truth value of \<open>parent.style.fontSize\<close>: a string that is not empty.\<close>

fun size_truthy :: "css_size \<Rightarrow> bool" where
  "size_truthy NoSize = False"
| "size_truthy (Px _) = True"
| "size_truthy (OtherSize s) = (s \<noteq> [])"

fun isParentFontSpan :: "node option \<Rightarrow> bool" where
  "isParentFontSpan None = False"
| "isParentFontSpan (Some (Text _ _)) = False"
| "isParentFontSpan (Some (Elem _ e cs)) =
     (tagName e = ''SPAN'' \<and> size_truthy (fontSize e) \<and> length cs = 1)"

fun emptied :: "node \<Rightarrow> node" where
  "emptied (Text j s) = Text j s"
| "emptied (Elem j e cs) = Elem j e []"

text \<open>
  The body of \<open>toReplace.forEach\<close> for one element \<open>el\<close>, on the tree and on the list
  \<open>newSpans\<close>. A reference in \<open>toReplace\<close> always names a node that exists, so the
  first case of the lookup is never taken.
\<close>

definition processMarker :: "jsnum \<Rightarrow> dom \<times> nid list \<Rightarrow> nid \<Rightarrow> dom \<times> nid list" where
  "processMarker sz st el =
     (case st of (d, newSpans) \<Rightarrow>
       (let d1 = forest_modify el cleanDescendants d;
            parent = parentNode d1 el
        in case lookup d1 el of
             None \<Rightarrow> (d, newSpans)
           | Some m \<Rightarrow>
               if isParentFontSpan parent then
                 (case parent of
                    None \<Rightarrow> (d1, newSpans)
                  | Some p \<Rightarrow>
                      let d2 = forest_modify (nodeId p) (set_px_node sz) d1;
                          d3 = forest_splice el (childNodes m) d2
                      in (d3\<lparr>detached := detached d3 @ [emptied m]\<rparr>, newSpans @ [nodeId p]))
               else
                 (let sid = nextId d1
                  in case clone_list (Suc sid) (reparsed_list (childNodes m)) of
                       (kids, k) \<Rightarrow>
                         let spanEl = Elem sid (set_px sz new_span) kids
                         in (case parent of
                               Some p \<Rightarrow>
                                 (let d2 = forest_splice el [spanEl] d1
                                  in (d2\<lparr>detached := detached d2 @ [m], nextId := k\<rparr>,
                                      newSpans @ [sid]))
                             | None \<Rightarrow>
                                 (d1\<lparr>detached := detached d1 @ [spanEl], nextId := k\<rparr>,
                                  newSpans @ [sid])))))"

text \<open>
  Lines 149 to 201 of the service and 198 to 245 of the component: the two queries on
  the container, the list \<open>toReplace\<close> (the FONT matches, then the SPAN matches) and the
  loop over it.
\<close>

definition toReplace :: "dom \<Rightarrow> nid \<Rightarrow> nid list" where
  "toReplace d container =
     querySelectorAll isFontMarker d container @ querySelectorAll isSpanMarker d container"

definition replaceMarkers :: "jsnum \<Rightarrow> dom \<Rightarrow> nid \<Rightarrow> dom \<times> nid list" where
  "replaceMarkers sz d container = foldl (processMarker sz) (d, []) (toReplace d container)"

section \<open>Ranges and the selection\<close>

text \<open>
  A Range object: two boundary points, each a container and an offset. The browser keeps
  Range objects in a heap; the program holds references to them (\<open>savedRange\<close>, and the
  range a selection was given by \<open>addRange\<close>), so a reference is an index into
  \<open>ranges\<close>.
\<close>

type_synonym boundary = "nid \<times> nat"

record range =
  rangeStart :: boundary
  rangeEnd :: boundary

type_synonym rref = nat

record browser =
  page :: dom
  ranges :: "range list"
  selectionObject :: bool
  selRange :: "rref option"
  selBackward :: bool
  execLog :: "(string \<times> string) list"

datatype exn = InvalidNodeTypeError | TypeError | NativeError string

text \<open>
  The outcome of a statement sequence: it ran to its end, or it raised, and in both cases
  the state it left behind.
\<close>

datatype 'a result = Ok 'a | Raised exn 'a

fun state_of :: "'a result \<Rightarrow> 'a" where
  "state_of (Ok s) = s"
| "state_of (Raised e s) = s"

fun raised :: "'a result \<Rightarrow> bool" where
  "raised (Ok s) = False"
| "raised (Raised e s) = True"

fun and_then :: "'a result \<Rightarrow> ('a \<Rightarrow> 'a result) \<Rightarrow> 'a result" where
  "and_then (Ok s) f = f s"
| "and_then (Raised e s) f = Raised e s"

fun map_result :: "('a \<Rightarrow> 'b) \<Rightarrow> 'a result \<Rightarrow> 'b result" where
  "map_result f (Ok s) = Ok (f s)"
| "map_result f (Raised e s) = Raised e (f s)"

text \<open>Where a node is: the tree (0 is the document) and the child indices leading to it.\<close>

fun path_in :: "nid \<Rightarrow> node \<Rightarrow> nat list option"
  and path_in_list :: "nid \<Rightarrow> nat \<Rightarrow> node list \<Rightarrow> nat list option" where
  "path_in i (Text j s) = (if i = j then Some [] else None)"
| "path_in i (Elem j e cs) = (if i = j then Some [] else path_in_list i 0 cs)"
| "path_in_list i k [] = None"
| "path_in_list i k (n # ns) =
     (case path_in i n of Some p \<Rightarrow> Some (k # p) | None \<Rightarrow> path_in_list i (Suc k) ns)"

fun locate_detached :: "nid \<Rightarrow> nat \<Rightarrow> node list \<Rightarrow> (nat \<times> nat list) option" where
  "locate_detached i k [] = None"
| "locate_detached i k (t # ts) =
     (case path_in i t of Some p \<Rightarrow> Some (k, p) | None \<Rightarrow> locate_detached i (Suc k) ts)"

definition locate :: "dom \<Rightarrow> nid \<Rightarrow> (nat \<times> nat list) option" where
  "locate d i =
     (case path_in i (document d) of Some p \<Rightarrow> Some (0, p)
      | None \<Rightarrow> locate_detached i 1 (detached d))"

fun lex_less :: "nat list \<Rightarrow> nat list \<Rightarrow> bool" where
  "lex_less [] [] = False"
| "lex_less [] (y # ys) = True"
| "lex_less (x # xs) [] = False"
| "lex_less (x # xs) (y # ys) = (x < y \<or> (x = y \<and> lex_less xs ys))"

text \<open>
  The position of one boundary point relative to another, as the DOM standard defines
  it: in one tree, the order of the child-index paths extended by the offsets.
\<close>

definition same_root :: "dom \<Rightarrow> boundary \<Rightarrow> boundary \<Rightarrow> bool" where
  "same_root d a b = (map_option fst (locate d (fst a)) = map_option fst (locate d (fst b)))"

definition bp_before :: "dom \<Rightarrow> boundary \<Rightarrow> boundary \<Rightarrow> bool" where
  "bp_before d a b =
     (case (locate d (fst a), locate d (fst b)) of
        (Some (t1, p1), Some (t2, p2)) \<Rightarrow> t1 = t2 \<and> lex_less (p1 @ [snd a]) (p2 @ [snd b])
      | _ \<Rightarrow> False)"

text \<open>\<open>range.setStart\<close> and \<open>range.setEnd\<close> of the DOM standard.\<close>

definition setStart :: "dom \<Rightarrow> boundary \<Rightarrow> range \<Rightarrow> range" where
  "setStart d bp r =
     (if \<not> same_root d bp (rangeStart r) \<or> bp_before d (rangeEnd r) bp
      then \<lparr>rangeStart = bp, rangeEnd = bp\<rparr>
      else r\<lparr>rangeStart := bp\<rparr>)"

definition setEnd :: "dom \<Rightarrow> boundary \<Rightarrow> range \<Rightarrow> range" where
  "setEnd d bp r =
     (if \<not> same_root d bp (rangeStart r) \<or> bp_before d bp (rangeStart r)
      then \<lparr>rangeStart = bp, rangeEnd = bp\<rparr>
      else r\<lparr>rangeEnd := bp\<rparr>)"

fun index_of :: "nid \<Rightarrow> node list \<Rightarrow> nat" where
  "index_of i [] = 0"
| "index_of i (n # ns) = (if nodeId n = i then 0 else Suc (index_of i ns))"

text \<open>
  \<open>range.setStartBefore(node)\<close> and \<open>range.setEndAfter(node)\<close>: both raise
  InvalidNodeTypeError for a node that has no parent.
\<close>

definition setStartBefore :: "dom \<Rightarrow> nid \<Rightarrow> range \<Rightarrow> exn + range" where
  "setStartBefore d n r =
     (case parentNode d n of
        None \<Rightarrow> Inl InvalidNodeTypeError
      | Some p \<Rightarrow> Inr (setStart d (nodeId p, index_of n (childNodes p)) r))"

definition setEndAfter :: "dom \<Rightarrow> nid \<Rightarrow> range \<Rightarrow> exn + range" where
  "setEndAfter d n r =
     (case parentNode d n of
        None \<Rightarrow> Inl InvalidNodeTypeError
      | Some p \<Rightarrow> Inr (setEnd d (nodeId p, Suc (index_of n (childNodes p))) r))"

text \<open>\<open>document.createRange()\<close>: a range collapsed at the start of the document.\<close>

definition createRange :: "dom \<Rightarrow> range" where
  "createRange d = \<lparr>rangeStart = (nodeId (document d), 0), rangeEnd = (nodeId (document d), 0)\<rparr>"

text \<open>\<open>range.commonAncestorContainer\<close>: the first node up from the start that is above the end too.\<close>

definition commonAncestorContainer :: "dom \<Rightarrow> range \<Rightarrow> nid option" where
  "commonAncestorContainer d r =
     map_option nodeId
       (find (\<lambda>n. nodeId n \<in> set (map nodeId (chain d (fst (rangeEnd r)))))
          (chain d (fst (rangeStart r))))"

text \<open>The selection: \<open>rangeCount\<close>, \<open>getRangeAt(0)\<close>, \<open>anchorNode\<close>.\<close>

definition rangeCount :: "browser \<Rightarrow> nat" where
  "rangeCount b = (case selRange b of None \<Rightarrow> 0 | Some _ \<Rightarrow> 1)"

definition range_at :: "browser \<Rightarrow> rref \<Rightarrow> range option" where
  "range_at b k = (if k < length (ranges b) then Some (ranges b ! k) else None)"

definition anchorNode :: "browser \<Rightarrow> nid option" where
  "anchorNode b =
     (case selRange b of None \<Rightarrow> None
      | Some k \<Rightarrow> (case range_at b k of None \<Rightarrow> None
                   | Some r \<Rightarrow> Some (fst (if selBackward b then rangeEnd r else rangeStart r))))"

definition removeAllRanges :: "browser \<Rightarrow> browser" where
  "removeAllRanges b = b\<lparr>selRange := None, selBackward := False\<rparr>"

text \<open>
  \<open>sel.addRange(range)\<close> takes the Range object itself. It does nothing for a range
  that is not in the document, and nothing when the selection has a range already.
\<close>

definition in_document :: "dom \<Rightarrow> range \<Rightarrow> bool" where
  "in_document d r = (map_option fst (locate d (fst (rangeStart r))) = Some 0)"

definition addRange :: "rref \<Rightarrow> browser \<Rightarrow> browser" where
  "addRange k b =
     (case range_at b k of
        None \<Rightarrow> b
      | Some r \<Rightarrow> if in_document (page b) r \<and> selRange b = None
                  then b\<lparr>selRange := Some k, selBackward := False\<rparr> else b)"

text \<open>\<open>range.cloneRange()\<close>: a new Range object with the same boundary points.\<close>

definition cloneRange :: "range \<Rightarrow> browser \<Rightarrow> browser \<times> rref" where
  "cloneRange r b = (b\<lparr>ranges := ranges b @ [r]\<rparr>, length (ranges b))"

section \<open>The primitives of the browser\<close>

text \<open>
  What the browser does on a native editing command, what it answers to a state query
  and what style it computes is not code of this repository: these are parameters of
  every operation below. \<open>computedFontSize\<close> is \<open>parseFloat\<close> of the computed font
  size of an element. \<open>cleanupEmptyLines\<close> stands for the cosmetic pass of the component
  over the HTML text it emits; only the emitted text depends on it.
\<close>

record prims =
  native :: "string \<Rightarrow> string \<Rightarrow> browser \<Rightarrow> browser result"
  queryCommandState :: "browser \<Rightarrow> string \<Rightarrow> bool"
  computedFontSize :: "browser \<Rightarrow> nid \<Rightarrow> jsnum"
  getInnerHTML :: "browser \<Rightarrow> nid \<Rightarrow> string"
  setInnerHTML :: "nid \<Rightarrow> string \<Rightarrow> browser \<Rightarrow> browser"
  focus :: "nid \<Rightarrow> browser \<Rightarrow> browser"
  cleanupEmptyLines :: "string \<Rightarrow> string"
  parseFloat :: "string \<Rightarrow> jsnum"

text \<open>
  \<open>document.execCommand(command, false, value)\<close>: the call is recorded, then the browser
  acts.
\<close>

definition document_execCommand :: "prims \<Rightarrow> string \<Rightarrow> string \<Rightarrow> browser \<Rightarrow> browser result" where
  "document_execCommand P command val b =
     map_result (\<lambda>b'. b'\<lparr>execLog := execLog b @ [(command, val)]\<rparr>) (native P command val b)"

text \<open>Running a step that touches the browser only, beside the state of an object.\<close>

fun on_browser :: "(browser \<Rightarrow> browser result) \<Rightarrow> 'a \<times> browser \<Rightarrow> ('a \<times> browser) result" where
  "on_browser f (s, b) = map_result (\<lambda>b'. (s, b')) (f b)"

text \<open>
  \<open>parseFloat(parsed.toFixed(1))\<close>: one decimal place, a tie rounded away from zero. The
  result is the decimal itself, where the code has the double nearest to it.
\<close>

fun toFixed1 :: "jsnum \<Rightarrow> jsnum" where
  "toFixed1 (Num r) =
     (if r < 0 then Num (- (of_int (round (- r * 10)) / 10)) else Num (of_int (round (r * 10)) / 10))"
| "toFixed1 n = n"

section \<open>The toolbar service\<close>

text \<open>
  \<open>isUpdatingLog\<close> lists the values \<open>isUpdating.next\<close> has been called with, the oldest
  first; \<open>isUpdating\<close> is the value the subject holds.
\<close>

record service =
  isUpdating :: bool
  isUpdatingLog :: "bool list"
  activeStates :: format_state
  savedRange :: "rref option"

definition isUpdating_next :: "bool \<Rightarrow> service \<Rightarrow> service" where
  "isUpdating_next v s = s\<lparr>isUpdating := v, isUpdatingLog := isUpdatingLog s @ [v]\<rparr>"

fun isContentEditable_walk :: "node list \<Rightarrow> bool" where
  "isContentEditable_walk [] = False"
| "isContentEditable_walk (Text j t # up) = isContentEditable_walk up"
| "isContentEditable_walk (Elem j e cs # up) =
     (if getAttribute e ''contenteditable'' = Some ''true'' then True
      else if getAttribute e ''contenteditable'' = Some ''false'' then False
      else if ''floating-toolbar'' \<in> set (classList e) then False
      else isContentEditable_walk up)"

definition isContentEditable :: "dom \<Rightarrow> nid option \<Rightarrow> bool" where
  "isContentEditable d node =
     (case node of None \<Rightarrow> False | Some i \<Rightarrow> isContentEditable_walk (chain d i))"

fun saveSelection :: "service \<times> browser \<Rightarrow> service \<times> browser" where
  "saveSelection (s, b) =
     (if selectionObject b \<and> rangeCount b > 0 then
        (case selRange b of
           None \<Rightarrow> (s, b)
         | Some k \<Rightarrow>
             (case range_at b k of
                None \<Rightarrow> (s, b)
              | Some r \<Rightarrow>
                  if isContentEditable (page b) (commonAncestorContainer (page b) r)
                  then (case cloneRange r b of (b', k') \<Rightarrow> (s\<lparr>savedRange := Some k'\<rparr>, b'))
                  else (s, b)))
      else (s, b))"

fun restoreSelection :: "service \<times> browser \<Rightarrow> service \<times> browser" where
  "restoreSelection (s, b) =
     (case savedRange s of
        None \<Rightarrow> (s, b)
      | Some k \<Rightarrow> if selectionObject b then (s, addRange k (removeAllRanges b)) else (s, b))"

text \<open>The font size \<open>updateActiveStates\<close> and \<open>updateToolbarState\<close> read at the anchor.\<close>

definition probeFontSize :: "prims \<Rightarrow> browser \<Rightarrow> nid \<Rightarrow> jsnum" where
  "probeFontSize P b anchor =
     (case parentNode (page b) anchor of
        None \<Rightarrow> Num 12
      | Some spanEl \<Rightarrow>
          let parsed = computedFontSize P b (nodeId spanEl)
          in if \<not> isNaN parsed then toFixed1 parsed else Num 12)"

definition probedStates :: "prims \<Rightarrow> browser \<Rightarrow> jsnum \<Rightarrow> format_state" where
  "probedStates P b currentFontSize =
     [''bold'' \<mapsto> VBool (queryCommandState P b ''bold''),
      ''italic'' \<mapsto> VBool (queryCommandState P b ''italic''),
      ''underline'' \<mapsto> VBool (queryCommandState P b ''underline''),
      ''justifyLeft'' \<mapsto> VBool (queryCommandState P b ''justifyLeft''),
      ''justifyCenter'' \<mapsto> VBool (queryCommandState P b ''justifyCenter''),
      ''justifyRight'' \<mapsto> VBool (queryCommandState P b ''justifyRight''),
      ''fontSize'' \<mapsto> VNum currentFontSize]"

fun updateActiveStates :: "prims \<Rightarrow> service \<times> browser \<Rightarrow> service \<times> browser" where
  "updateActiveStates P (s, b) =
     (if selectionObject b \<and> anchorNode b \<noteq> None \<and> isContentEditable (page b) (anchorNode b)
      then (case anchorNode b of
              None \<Rightarrow> (s, b)
            | Some a \<Rightarrow> (s\<lparr>activeStates := probedStates P b (probeFontSize P b a)\<rparr>, b))
      else (s, b))"

text \<open>\<open>try { ... } finally { this.isUpdating.next(false) }\<close>.\<close>

definition finally_clear :: "(service \<times> browser) result \<Rightarrow> (service \<times> browser) result" where
  "finally_clear r = map_result (\<lambda>(s, b). (isUpdating_next False s, b)) r"

text \<open>The body of the \<open>try\<close> block of \<open>executeCommand\<close>, after the selection is restored.\<close>

definition runCommand ::
  "prims \<Rightarrow> string \<Rightarrow> string \<Rightarrow> service \<times> browser \<Rightarrow> (service \<times> browser) result" where
  "runCommand P command val st =
     and_then (and_then
       (on_browser (document_execCommand P ''styleWithCSS'' ''true'') st)
       (on_browser (document_execCommand P command val)))
       (\<lambda>st1. Ok (updateActiveStates P (saveSelection st1)))"

definition executeCommand ::
  "prims \<Rightarrow> string \<Rightarrow> string \<Rightarrow> service \<times> browser \<Rightarrow> (service \<times> browser) result" where
  "executeCommand P command val st =
     (case st of (s, b) \<Rightarrow>
        finally_clear (runCommand P command val (restoreSelection (isUpdating_next True s, b))))"

text \<open>
  The block "Re-establish selection" of both \<open>setFontSize\<close>: when \<open>newSpans\<close> is not
  empty and there is a selection object, the selection is emptied, and a new range is set
  to start before \<open>newSpans[0]\<close> and to end after the last entry, then added.
\<close>

definition reselect :: "nid list \<Rightarrow> browser \<Rightarrow> browser result" where
  "reselect newSpans b =
     (case newSpans of
        [] \<Rightarrow> Ok b
      | first # rest \<Rightarrow>
          if selectionObject b then
            (let b1 = removeAllRanges b;
                 k = length (ranges b1);
                 b2 = b1\<lparr>ranges := ranges b1 @ [createRange (page b1)]\<rparr>
             in case setStartBefore (page b2) first (createRange (page b1)) of
                  Inl e \<Rightarrow> Raised e b2
                | Inr r1 \<Rightarrow>
                    (let b3 = b2\<lparr>ranges := (ranges b2)[k := r1]\<rparr>
                     in case setEndAfter (page b3) (last (first # rest)) r1 of
                          Inl e \<Rightarrow> Raised e b3
                        | Inr r2 \<Rightarrow> Ok (addRange k (b3\<lparr>ranges := (ranges b3)[k := r2]\<rparr>))))
          else Ok b)"

text \<open>
  "Scope search to container" of the service: the body, or the element of the common
  ancestor of the saved range. A text node without a parent element leaves \<open>container\<close>
  null, and the query on it raises.
\<close>

definition searchContainer :: "service \<Rightarrow> browser \<Rightarrow> exn + nid" where
  "searchContainer s b =
     (case savedRange s of
        None \<Rightarrow> Inr (nodeId (document (page b)))
      | Some k \<Rightarrow>
          (case range_at b k of
             None \<Rightarrow> Inr (nodeId (document (page b)))
           | Some r \<Rightarrow>
               (case commonAncestorContainer (page b) r of
                  None \<Rightarrow> Inr (nodeId (document (page b)))
                | Some n \<Rightarrow>
                    (case lookup (page b) n of
                       Some (Elem j e cs) \<Rightarrow> Inr j
                     | _ \<Rightarrow> (case parentNode (page b) n of
                               None \<Rightarrow> Inl TypeError
                             | Some p \<Rightarrow> Inr (nodeId p))))))"

text \<open>
  Range objects are live: the browser moves their boundary points while the loop rewrites
  the tree. When a node is removed, a boundary point in it moves to its place in its
  parent, and an offset in the parent that lies behind it goes down by one; when a node
  is inserted, an offset in the parent that lies behind it goes up by one. For one element
  \<open>el\<close> of \<open>toReplace\<close>, with \<open>i\<close> its index in its parent and \<open>n\<close> the number of its
  children, these steps add up as follows. With \<open>el.replaceWith(span)\<close>, a point in
  \<open>el\<close> ends just before the new span, and so does the point just behind \<open>el\<close>. With the
  children moved up one by one and \<open>el\<close> removed, a point in \<open>el\<close> or in one of its
  children ends behind the last child moved, and a point of the parent behind \<open>el\<close>
  moves on by \<open>n - 1\<close>.
\<close>

definition moveBoundary :: "dom \<Rightarrow> nid \<Rightarrow> boundary \<Rightarrow> boundary" where
  "moveBoundary d el bp =
     (case bp of (c, off) \<Rightarrow>
        (let d1 = forest_modify el cleanDescendants d
         in case (lookup d1 el, parentNode d1 el) of
              (Some m, Some p) \<Rightarrow>
                (let i = index_of el (childNodes p);
                     n = length (childNodes m);
                     inside = (c \<in> set (map nodeId (m # descendants m)))
                 in if isParentFontSpan (Some p) then
                      (if inside then (nodeId p, i + n)
                       else if c = nodeId p \<and> i < off then (nodeId p, off + n - 1)
                       else (c, off))
                    else
                      (if inside then (nodeId p, i)
                       else if c = nodeId p \<and> off = Suc i then (nodeId p, i)
                       else (c, off)))
            | _ \<Rightarrow> (c, off)))"

definition moveRange :: "dom \<Rightarrow> nid \<Rightarrow> range \<Rightarrow> range" where
  "moveRange d el r =
     \<lparr>rangeStart = moveBoundary d el (rangeStart r), rangeEnd = moveBoundary d el (rangeEnd r)\<rparr>"

text \<open>The Range objects after the loop over \<open>toReplace\<close>, step by step with the tree.\<close>

fun liveRanges :: "jsnum \<Rightarrow> dom \<Rightarrow> nid list \<Rightarrow> range list \<Rightarrow> range list" where
  "liveRanges sz d [] rs = rs"
| "liveRanges sz d (el # els) rs =
     liveRanges sz (fst (processMarker sz (d, []) el)) els (map (moveRange d el) rs)"

text \<open>The rewrite of the marked elements below a container, on the page of the browser.\<close>

definition rewrite_page :: "jsnum \<Rightarrow> nid \<Rightarrow> browser \<Rightarrow> browser \<times> nid list" where
  "rewrite_page sz container b =
     (case replaceMarkers sz (page b) container of
        (d, newSpans) \<Rightarrow>
          (b\<lparr>page := d,
             ranges := liveRanges sz (page b) (toReplace (page b) container) (ranges b)\<rparr>,
           newSpans))"

definition forceFontSize :: "jsnum \<Rightarrow> service \<Rightarrow> service" where
  "forceFontSize sz s = s\<lparr>activeStates := (activeStates s)(''fontSize'' \<mapsto> VNum sz)\<rparr>"

text \<open>
  The three native commands of the service that mark the selection: style-as-CSS off, the
  font name set to the marker, style-as-CSS on again.
\<close>

definition markSelection :: "prims \<Rightarrow> 'a \<times> browser \<Rightarrow> ('a \<times> browser) result" where
  "markSelection P st =
     and_then (and_then
       (on_browser (document_execCommand P ''styleWithCSS'' ''false'') st)
       (on_browser (document_execCommand P ''fontName'' markerFont)))
       (on_browser (document_execCommand P ''styleWithCSS'' ''true''))"

text \<open>The last two statements of the \<open>try\<close> block: the selection is saved, the size forced.\<close>

definition saveAndForce :: "jsnum \<Rightarrow> service \<times> browser \<Rightarrow> service \<times> browser" where
  "saveAndForce sz st = (case saveSelection st of (s, b) \<Rightarrow> (forceFontSize sz s, b))"

text \<open>From "Scope search to container" to the end of the \<open>try\<close> block.\<close>

definition rewriteMarked :: "jsnum \<Rightarrow> service \<times> browser \<Rightarrow> (service \<times> browser) result" where
  "rewriteMarked sz st =
     (case st of (s, b) \<Rightarrow>
        (case searchContainer s b of
           Inl e \<Rightarrow> Raised e (s, b)
         | Inr container \<Rightarrow>
             (case rewrite_page sz container b of
                (b1, newSpans) \<Rightarrow>
                  and_then (on_browser (reselect newSpans) (s, b1))
                    (\<lambda>st1. Ok (saveAndForce sz st1)))))"

definition setFontSize ::
  "prims \<Rightarrow> jsnum \<Rightarrow> service \<times> browser \<Rightarrow> (service \<times> browser) result" where
  "setFontSize P sz st =
     (case st of (s, b) \<Rightarrow>
        finally_clear
          (and_then (markSelection P (restoreSelection (isUpdating_next True s, b)))
             (rewriteMarked sz)))"

section \<open>The floating toolbar component\<close>

definition getCurrentFontSize :: "format_state \<Rightarrow> jsnum" where
  "getCurrentFontSize state = (case state ''fontSize'' of Some (VNum n) \<Rightarrow> n | _ \<Rightarrow> Num 12)"

definition changeFontSize ::
  "prims \<Rightarrow> jsnum \<Rightarrow> service \<times> browser \<Rightarrow> (service \<times> browser) result" where
  "changeFontSize P delta st =
     (let current = getCurrentFontSize (activeStates (fst st));
          newSize = js_add current delta
      in if ge_one newSize then setFontSize P newSize st else Ok st)"

definition setManualFontSize ::
  "prims \<Rightarrow> string \<Rightarrow> service \<times> browser \<Rightarrow> (service \<times> browser) result" where
  "setManualFontSize P val st =
     (let newSize = parseFloat P val
      in if \<not> isNaN newSize \<and> ge_one newSize then setFontSize P newSize st else Ok st)"

section \<open>The text editor component\<close>

text \<open>
  \<open>editorRef\<close> is undefined until the view exists; a statement that reads
  \<open>this.editorRef.nativeElement\<close> then raises TypeError. \<open>emitted\<close> lists what
  \<open>onChange\<close> has been called with. Where the component has a method of the same name
  as the service or the toolbar (\<open>saveSelection\<close>, \<open>restoreSelection\<close>, \<open>setFontSize\<close>,
  \<open>changeFontSize\<close>, \<open>setManualFontSize\<close>, \<open>getCurrentFontSize\<close>), the one of the
  component is prefixed with \<open>editor_\<close>, and its field \<open>savedRange\<close> is
  \<open>editorSavedRange\<close>.
\<close>

record component =
  content :: string
  isDisabled :: bool
  editorSavedRange :: "rref option"
  toolbarState :: format_state
  editorRef :: "nid option"
  emitted :: "string list"

fun writeValue :: "prims \<Rightarrow> string option \<Rightarrow> component \<times> browser \<Rightarrow> component \<times> browser" where
  "writeValue P val (c, b) =
     (let c1 = c\<lparr>content := (case val of None \<Rightarrow> [] | Some v \<Rightarrow> v)\<rparr>
      in case editorRef c1 of
           None \<Rightarrow> (c1, b)
         | Some ed \<Rightarrow> if getInnerHTML P b ed \<noteq> content c1
                      then (c1, setInnerHTML P ed (content c1) b) else (c1, b))"

fun editor_saveSelection :: "component \<times> browser \<Rightarrow> (component \<times> browser) result" where
  "editor_saveSelection (c, b) =
     (if selectionObject b \<and> rangeCount b > 0 then
        (case editorRef c of
           None \<Rightarrow> Raised TypeError (c, b)
         | Some ed \<Rightarrow>
             if contains_node (page b) ed (anchorNode b) then
               (case selRange b of
                  None \<Rightarrow> Ok (c, b)
                | Some k \<Rightarrow>
                    (case range_at b k of
                       None \<Rightarrow> Ok (c, b)
                     | Some r \<Rightarrow>
                         (case cloneRange r b of (b', k') \<Rightarrow> Ok (c\<lparr>editorSavedRange := Some k'\<rparr>, b'))))
             else Ok (c, b))
      else Ok (c, b))"

fun editor_restoreSelection :: "component \<times> browser \<Rightarrow> component \<times> browser" where
  "editor_restoreSelection (c, b) =
     (case editorSavedRange c of
        None \<Rightarrow> (c, b)
      | Some k \<Rightarrow> if selectionObject b then (c, addRange k (removeAllRanges b)) else (c, b))"

fun updateToolbarState :: "prims \<Rightarrow> component \<times> browser \<Rightarrow> component \<times> browser" where
  "updateToolbarState P (c, b) =
     (case editorRef c of
        None \<Rightarrow> (c, b)
      | Some ed \<Rightarrow>
          if \<not> selectionObject b \<or> anchorNode b = None \<or> \<not> contains_node (page b) ed (anchorNode b)
          then (c, b)
          else (case anchorNode b of
                  None \<Rightarrow> (c, b)
                | Some a \<Rightarrow>
                    (c\<lparr>toolbarState := toolbarState c ++ probedStates P b (probeFontSize P b a)\<rparr>, b)))"

fun onInput :: "prims \<Rightarrow> component \<times> browser \<Rightarrow> (component \<times> browser) result" where
  "onInput P (c, b) =
     (case editorRef c of
        None \<Rightarrow> Raised TypeError (c, b)
      | Some ed \<Rightarrow>
          (let html = getInnerHTML P b ed;
               c1 = c\<lparr>content := cleanupEmptyLines P html\<rparr>;
               c2 = c1\<lparr>emitted := emitted c1 @ [content c1]\<rparr>
           in and_then (editor_saveSelection (c2, b)) (\<lambda>st. Ok (updateToolbarState P st))))"

definition execCommand ::
  "prims \<Rightarrow> string \<Rightarrow> string \<Rightarrow> component \<times> browser \<Rightarrow> (component \<times> browser) result" where
  "execCommand P command val st =
     (if isDisabled (fst st) then Ok st
      else (case editor_restoreSelection st of
              (c, b) \<Rightarrow>
                (case editorRef c of
                   None \<Rightarrow> Raised TypeError (c, b)
                 | Some ed \<Rightarrow>
                     and_then (and_then (and_then
                       (on_browser (document_execCommand P ''styleWithCSS'' ''true'') (c, focus P ed b))
                       (on_browser (document_execCommand P command val)))
                       editor_saveSelection)
                       (\<lambda>st1. onInput P (updateToolbarState P st1)))))"

text \<open>
  \<open>setFontSize\<close> of the component up to the statement that forces the size into
  \<open>toolbarState\<close> (lines 188 to 262), and the whole of it, which ends with \<open>this.onInput()\<close>.
\<close>

definition overrideFontSize :: "jsnum \<Rightarrow> component \<times> browser \<Rightarrow> component \<times> browser" where
  "overrideFontSize sz st =
     (case st of (c, b) \<Rightarrow> (c\<lparr>toolbarState := (toolbarState c)(''fontSize'' \<mapsto> VNum sz)\<rparr>, b))"

definition editor_markSelection :: "prims \<Rightarrow> 'a \<times> browser \<Rightarrow> ('a \<times> browser) result" where
  "editor_markSelection P st =
     and_then (on_browser (document_execCommand P ''styleWithCSS'' ''false'') st)
       (on_browser (document_execCommand P ''fontName'' markerFont))"

definition editor_rewriteMarked ::
  "prims \<Rightarrow> jsnum \<Rightarrow> component \<times> browser \<Rightarrow> (component \<times> browser) result" where
  "editor_rewriteMarked P sz st =
     (case st of (c, b) \<Rightarrow>
        (case editorRef c of
           None \<Rightarrow> Raised TypeError (c, b)
         | Some ed \<Rightarrow>
             (case rewrite_page sz ed b of
                (b1, newSpans) \<Rightarrow>
                  and_then (and_then (on_browser (reselect newSpans) (c, b1)) editor_saveSelection)
                    (\<lambda>st1. Ok (overrideFontSize sz (updateToolbarState P st1))))))"

definition editor_setFontSize_forced ::
  "prims \<Rightarrow> jsnum \<Rightarrow> component \<times> browser \<Rightarrow> (component \<times> browser) result" where
  "editor_setFontSize_forced P sz st =
     and_then (editor_markSelection P (editor_restoreSelection st)) (editor_rewriteMarked P sz)"

definition editor_setFontSize ::
  "prims \<Rightarrow> jsnum \<Rightarrow> component \<times> browser \<Rightarrow> (component \<times> browser) result" where
  "editor_setFontSize P sz st = and_then (editor_setFontSize_forced P sz st) (onInput P)"

definition editor_getCurrentFontSize :: "component \<Rightarrow> jsnum" where
  "editor_getCurrentFontSize c = getCurrentFontSize (toolbarState c)"

definition editor_changeFontSize ::
  "prims \<Rightarrow> jsnum \<Rightarrow> component \<times> browser \<Rightarrow> (component \<times> browser) result" where
  "editor_changeFontSize P delta st =
     (let current = editor_getCurrentFontSize (fst st);
          newSize = js_add current delta
      in if ge_one newSize then editor_setFontSize P newSize st else Ok st)"

definition editor_setManualFontSize ::
  "prims \<Rightarrow> string \<Rightarrow> component \<times> browser \<Rightarrow> (component \<times> browser) result" where
  "editor_setManualFontSize P val st =
     (let newSize = parseFloat P val
      in if \<not> isNaN newSize \<and> ge_one newSize then editor_setFontSize P newSize st else Ok st)"

section \<open>The two variants side by side\<close>

text \<open>
  The application holds one toolbar service and an editor component. The component does
  not refer to the service: an operation of one leaves the other as it is.
\<close>

record app =
  toolbar :: service
  editor :: component

fun in_toolbar ::
  "(service \<times> browser \<Rightarrow> (service \<times> browser) result) \<Rightarrow> app \<times> browser \<Rightarrow> (app \<times> browser) result" where
  "in_toolbar f (a, b) = map_result (\<lambda>(s, b'). (a\<lparr>toolbar := s\<rparr>, b')) (f (toolbar a, b))"

fun in_editor ::
  "(component \<times> browser \<Rightarrow> (component \<times> browser) result) \<Rightarrow> app \<times> browser \<Rightarrow> (app \<times> browser) result" where
  "in_editor f (a, b) = map_result (\<lambda>(c, b'). (a\<lparr>editor := c\<rparr>, b')) (f (editor a, b))"

text \<open>
  The flag was held for an operation: \<open>true\<close> then \<open>false\<close> were put on \<open>isUpdating\<close>,
  nothing else, and the flag is down in the state the operation leaves.
\<close>

definition flag_held :: "app \<times> browser \<Rightarrow> (app \<times> browser) result \<Rightarrow> bool" where
  "flag_held st r =
     (isUpdatingLog (toolbar (fst (state_of r))) = isUpdatingLog (toolbar (fst st)) @ [True, False]
      \<and> \<not> isUpdating (toolbar (fst (state_of r))))"

definition flag_part :: "service \<Rightarrow> bool \<times> bool list" where
  "flag_part s = (isUpdating s, isUpdatingLog s)"

text \<open>
  An element that opens an editable region, and one that closes the walk of
  \<open>isContentEditable\<close> with the answer no.
\<close>

fun editable_host :: "node \<Rightarrow> bool" where
  "editable_host (Text _ _) = False"
| "editable_host (Elem _ e _) = (getAttribute e ''contenteditable'' = Some ''true'')"

fun barrier :: "node \<Rightarrow> bool" where
  "barrier (Text _ _) = False"
| "barrier (Elem _ e _) =
     (getAttribute e ''contenteditable'' = Some ''false'' \<or> ''floating-toolbar'' \<in> set (classList e))"

text \<open>The node \<open>saveSelection\<close> of the service starts its walk from, if the selection has a range.\<close>

definition selectionAncestor :: "browser \<Rightarrow> nid option" where
  "selectionAncestor b =
     (case selRange b of
        None \<Rightarrow> None
      | Some k \<Rightarrow> (case range_at b k of
                     None \<Rightarrow> None
                   | Some r \<Rightarrow> commonAncestorContainer (page b) r))"

text \<open>No two nodes the program can reach are the same node: identities are not shared.\<close>

definition distinct_ids :: "dom \<Rightarrow> bool" where
  "distinct_ids d = distinct (map nodeId (descendants_list (document d # detached d)))"


text \<open>
  The place of a subtree in a tree: the elements on the way down from the root, the
  outermost first, each with the children it has before and after the way down.
\<close>

type_synonym frame = "nid \<times> elem \<times> node list \<times> node list"

fun plug :: "frame list \<Rightarrow> node \<Rightarrow> node" where
  "plug [] t = t"
| "plug ((j, e, before, after) # ctx) t = Elem j e (before @ plug ctx t # after)"

fun frame_elems :: "frame list \<Rightarrow> node list" where
  "frame_elems [] = []"
| "frame_elems ((j, e, before, after) # ctx) = Elem j e [] # frame_elems ctx"

fun frame_siblings :: "frame list \<Rightarrow> node list" where
  "frame_siblings [] = []"
| "frame_siblings ((j, e, before, after) # ctx) = before @ after @ frame_siblings ctx"

section \<open>Concrete pages\<close>

definition element :: "string \<Rightarrow> elem" where
  "element t =
     \<lparr>htmlElement = True, tagName = t, attrs = [], classList = [], fontSize = NoSize,
      styleRest = []\<rparr>"

definition editable_div :: elem where
  "editable_div = (element ''DIV'')\<lparr>attrs := [(''contenteditable'', ''true'')]\<rparr>"

definition marker_font :: elem where
  "marker_font = (element ''FONT'')\<lparr>attrs := [(''face'', ''cdk-marker-font'')]\<rparr>"

definition marker_span :: elem where
  "marker_span = (element ''SPAN'')\<lparr>styleRest := ''font-family: cdk-marker-font;''\<rparr>"

text \<open>
  A browser on which every native command is unsupported and does nothing, every
  formatting query answers no, and every computed font size is 16 pixels.
\<close>

definition quiet_prims :: prims where
  "quiet_prims =
     \<lparr>native = (\<lambda>command val b. Ok b),
      queryCommandState = (\<lambda>b k. False),
      computedFontSize = (\<lambda>b n. Num 16),
      getInnerHTML = (\<lambda>b n. []),
      setInnerHTML = (\<lambda>n html b. b),
      focus = (\<lambda>n b. b),
      cleanupEmptyLines = (\<lambda>html. html),
      parseFloat = (\<lambda>s. if s = ''14.5'' then Num 14.5 else NaN)\<rparr>"

definition fresh_service :: service where
  "fresh_service =
     \<lparr>isUpdating = False, isUpdatingLog = [], activeStates = initial_states, savedRange = None\<rparr>"

definition fresh_component :: component where
  "fresh_component =
     \<lparr>content = [], isDisabled = False, editorSavedRange = None, toolbarState = initial_states,
      editorRef = Some 0, emitted = []\<rparr>"

text \<open>The page \<open><div contenteditable="true">x</div>\<close> with nothing selected.\<close>

definition plain_page :: browser where
  "plain_page =
     \<lparr>page = \<lparr>document = Elem 0 editable_div [Text 1 ''x''], detached = [], nextId = 2\<rparr>,
      ranges = [], selectionObject = True, selRange = None, selBackward = False, execLog = []\<rparr>"

definition service_at_one :: service where
  "service_at_one = fresh_service\<lparr>activeStates := initial_states(''fontSize'' \<mapsto> VNum (Num 1))\<rparr>"

definition component_at_one :: component where
  "component_at_one = fresh_component\<lparr>toolbarState := initial_states(''fontSize'' \<mapsto> VNum (Num 1))\<rparr>"

definition toolbar_div :: elem where
  "toolbar_div = (element ''DIV'')\<lparr>classList := [''floating-toolbar'']\<rparr>"

text \<open>
  The page \<open><body><div contenteditable="true">x</div><div class="floating-toolbar">
  <input>12</input></div></body>\<close>. Range 1 selects the \<open>x\<close> of the editor; range 0,
  the one the selection has, lies in the input field of the toolbar.
\<close>

definition toolbar_page :: browser where
  "toolbar_page =
     \<lparr>page = \<lparr>document =
                 Elem 0 (element ''BODY'')
                   [Elem 1 editable_div [Text 2 ''x''],
                    Elem 3 toolbar_div [Elem 4 (element ''INPUT'') [Text 5 ''12'']]],
               detached = [], nextId = 6\<rparr>,
      ranges = [\<lparr>rangeStart = (5, 0), rangeEnd = (5, 2)\<rparr>, \<lparr>rangeStart = (2, 0), rangeEnd = (2, 1)\<rparr>],
      selectionObject = True, selRange = Some 0, selBackward = False, execLog = []\<rparr>"

text \<open>The same, with the toolbar placed inside the editable element.\<close>

definition embedded_toolbar_page :: browser where
  "embedded_toolbar_page =
     \<lparr>page = \<lparr>document =
                 Elem 0 (element ''BODY'')
                   [Elem 1 editable_div
                     [Text 2 ''x'',
                      Elem 3 toolbar_div [Elem 4 (element ''INPUT'') [Text 5 ''12'']]]],
               detached = [], nextId = 6\<rparr>,
      ranges = [\<lparr>rangeStart = (5, 0), rangeEnd = (5, 2)\<rparr>, \<lparr>rangeStart = (2, 0), rangeEnd = (2, 1)\<rparr>],
      selectionObject = True, selRange = Some 0, selBackward = False, execLog = []\<rparr>"

text \<open>
  The page \<open><body><div contenteditable="true">x</div><p>y</p></body>\<close>. Range 0, the one
  the selection has, starts in the \<open>x\<close> of the editor and ends after the \<open>y\<close> of the
  paragraph beside it; range 1 selects the \<open>x\<close> alone.
\<close>

definition straddling_page :: browser where
  "straddling_page =
     \<lparr>page = \<lparr>document =
                 Elem 0 (element ''BODY'')
                   [Elem 1 editable_div [Text 2 ''x''], Elem 3 (element ''P'') [Text 4 ''y'']],
               detached = [], nextId = 5\<rparr>,
      ranges = [\<lparr>rangeStart = (2, 0), rangeEnd = (4, 1)\<rparr>, \<lparr>rangeStart = (2, 0), rangeEnd = (2, 1)\<rparr>],
      selectionObject = True, selRange = Some 0, selBackward = False, execLog = []\<rparr>"

definition service_with_range :: service where
  "service_with_range = fresh_service\<lparr>savedRange := Some 1\<rparr>"

definition component_with_range :: component where
  "component_with_range = fresh_component\<lparr>editorSavedRange := Some 1, editorRef := Some 1\<rparr>"

definition component_without_view :: component where
  "component_without_view = fresh_component\<lparr>editorRef := None\<rparr>"

definition fresh_app :: app where
  "fresh_app = \<lparr>toolbar = fresh_service, editor = fresh_component\<rparr>"

text \<open>A browser on which every native command raises.\<close>

definition raising_prims :: prims where
  "raising_prims = quiet_prims\<lparr>native := (\<lambda>command val b. Raised (NativeError command) b)\<rparr>"

text \<open>A browser on which every formatting query answers yes.\<close>

definition affirming_prims :: prims where
  "affirming_prims = quiet_prims\<lparr>queryCommandState := (\<lambda>b k. True)\<rparr>"

text \<open>The page \<open><div contenteditable="false">x</div>\<close> of a disabled surface, the \<open>x\<close> selected.\<close>

definition disabled_page :: browser where
  "disabled_page =
     \<lparr>page = \<lparr>document = Elem 0 ((element ''DIV'')\<lparr>attrs := [(''contenteditable'', ''false'')]\<rparr>)
                             [Text 1 ''x''],
               detached = [], nextId = 2\<rparr>,
      ranges = [\<lparr>rangeStart = (1, 0), rangeEnd = (1, 1)\<rparr>],
      selectionObject = True, selRange = Some 0, selBackward = False, execLog = []\<rparr>"


definition component_on_div :: component where
  "component_on_div = fresh_component\<lparr>editorRef := Some 1\<rparr>"



text \<open>
  The computed font size of a node on a page: the size of the nearest element, from the
  node upwards, that declares one in pixels, and 16 pixels when there is none.
\<close>

fun inherited_px :: "node list \<Rightarrow> jsnum" where
  "inherited_px [] = Num 16"
| "inherited_px (Text j t # up) = inherited_px up"
| "inherited_px (Elem j e cs # up) = (case fontSize e of Px n \<Rightarrow> n | _ \<Rightarrow> inherited_px up)"

text \<open>
  A browser whose \<open>fontName\<close> command leaves a given marked document behind, with the
  live ranges moved to given boundary points, which computes font sizes from the
  document, and on which every formatting query answers yes.
\<close>

definition marking_prims :: "node \<Rightarrow> range list \<Rightarrow> prims" where
  "marking_prims marked rs =
     quiet_prims
       \<lparr>native := (\<lambda>command val b.
           if command = ''fontName''
           then Ok (b\<lparr>page := (page b)\<lparr>document := marked\<rparr>, ranges := rs\<rparr>) else Ok b),
        queryCommandState := (\<lambda>b k. True),
        computedFontSize := (\<lambda>b n. inherited_px (chain (page b) n))\<rparr>"





text \<open>The marked elements below a node of the page.\<close>

definition markersBelow :: "dom \<Rightarrow> nid \<Rightarrow> node list" where
  "markersBelow d c =
     (case lookup d c of None \<Rightarrow> [] | Some t \<Rightarrow> filter isMarker (descendants t))"

definition sized_span :: elem where
  "sized_span = (element ''SPAN'')\<lparr>fontSize := Px (Num 12)\<rparr>"

text \<open>
  The page \<open><body><div contenteditable="true"><span style="font-size: 12px">x</span>
  </div></body>\<close> with the \<open>x\<close> selected; range 1 is the saved copy of the selection.
  A browser that styles with spans marks this selection by adding the font family to the
  existing span; no node moves, so the ranges stay where they are.
\<close>

definition sized_page :: browser where
  "sized_page =
     \<lparr>page = \<lparr>document = Elem 0 (element ''BODY'') [Elem 1 editable_div [Elem 2 sized_span [Text 3 ''x'']]],
               detached = [], nextId = 4\<rparr>,
      ranges = [\<lparr>rangeStart = (3, 0), rangeEnd = (3, 1)\<rparr>, \<lparr>rangeStart = (3, 0), rangeEnd = (3, 1)\<rparr>],
      selectionObject = True, selRange = Some 0, selBackward = False, execLog = []\<rparr>"

definition sized_marked :: node where
  "sized_marked =
     Elem 0 (element ''BODY'')
       [Elem 1 editable_div
         [Elem 2 (sized_span\<lparr>styleRest := ''font-family: cdk-marker-font;''\<rparr>) [Text 3 ''x'']]]"

definition sized_prims :: prims where
  "sized_prims = marking_prims sized_marked (ranges sized_page)"

definition service_saved1 :: service where
  "service_saved1 = fresh_service\<lparr>savedRange := Some 1\<rparr>"

definition component_saved1 :: component where
  "component_saved1 = component_on_div\<lparr>editorSavedRange := Some 1\<rparr>"

text \<open>
  The page \<open><body><div contenteditable="true">ab</div></body>\<close> with \<open>ab\<close> selected,
  on a browser whose marking leaves a marker span inside a marker span:
  \<open><span style="font-family: cdk-marker-font;">a<span style="font-family: cdk-marker-font;">
  b</span></span>\<close>.
\<close>

definition ab_page :: browser where
  "ab_page =
     \<lparr>page = \<lparr>document = Elem 0 (element ''BODY'') [Elem 1 editable_div [Text 2 ''ab'']],
               detached = [], nextId = 7\<rparr>,
      ranges = [\<lparr>rangeStart = (2, 0), rangeEnd = (2, 2)\<rparr>, \<lparr>rangeStart = (2, 0), rangeEnd = (2, 2)\<rparr>],
      selectionObject = True, selRange = Some 0, selBackward = False, execLog = []\<rparr>"

definition nested_marked :: node where
  "nested_marked =
     Elem 0 (element ''BODY'')
       [Elem 1 editable_div
         [Elem 3 marker_span [Text 4 ''a'', Elem 5 marker_span [Text 6 ''b'']]]]"

definition nested_prims :: prims where
  "nested_prims =
     marking_prims nested_marked
       [\<lparr>rangeStart = (1, 0), rangeEnd = (1, 1)\<rparr>, \<lparr>rangeStart = (1, 0), rangeEnd = (1, 1)\<rparr>]"

text \<open>
  The page \<open><body><div contenteditable="true"><span style="font-size: 12px">a</span>b
  </div></body>\<close> with \<open>ab\<close> selected, on a browser that marks the existing span in its
  style and wraps the bare text in a FONT element.
\<close>

definition mixed_page :: browser where
  "mixed_page =
     \<lparr>page = \<lparr>document = Elem 0 (element ''BODY'')
                 [Elem 1 editable_div [Elem 2 sized_span [Text 3 ''a''], Text 4 ''b'']],
               detached = [], nextId = 6\<rparr>,
      ranges = [\<lparr>rangeStart = (3, 0), rangeEnd = (4, 1)\<rparr>, \<lparr>rangeStart = (3, 0), rangeEnd = (4, 1)\<rparr>],
      selectionObject = True, selRange = Some 0, selBackward = False, execLog = []\<rparr>"

definition mixed_marked :: node where
  "mixed_marked =
     Elem 0 (element ''BODY'')
       [Elem 1 editable_div
         [Elem 2 (sized_span\<lparr>styleRest := ''font-family: cdk-marker-font;''\<rparr>) [Text 3 ''a''],
          Elem 5 marker_font [Text 4 ''b'']]]"

definition mixed_prims :: prims where
  "mixed_prims =
     marking_prims mixed_marked
       [\<lparr>rangeStart = (3, 0), rangeEnd = (1, 2)\<rparr>, \<lparr>rangeStart = (3, 0), rangeEnd = (1, 2)\<rparr>]"











section \<open>Properties\<close>

subsection \<open>Outcomes\<close>

lemma and_then_inv:
  "Q (state_of r) \<Longrightarrow> (\<And>x. Q x \<Longrightarrow> Q (state_of (f x))) \<Longrightarrow> Q (state_of (and_then r f))"
  by (cases r) auto


lemma state_of_map_result: "state_of (map_result f r) = f (state_of r)"
  by (cases r) auto

lemma fst_on_browser: "fst (state_of (on_browser f st)) = fst st"
  by (cases st; cases "f (snd st)") auto

subsection \<open>The steppers and the manual entry\<close>

text \<open>
  C8. \<open>changeFontSize(delta)\<close> reads the current size from the format state, 12 when the
  stored value is not a number, adds \<open>delta\<close>, and calls \<open>setFontSize\<close> with the sum
  exactly when the sum is at least 1; otherwise it does nothing. From 12 a step of +1
  requests 13, from 1 a step of -1 is a no-op. \<open>setManualFontSize(v)\<close> calls
  \<open>setFontSize(parseFloat(v))\<close> exactly when that is a number at least 1. Both hold for
  the toolbar and for the editor component.
\<close>

theorem font_size_steppers:
  "getCurrentFontSize state = (case state ''fontSize'' of Some (VNum n) \<Rightarrow> n | _ \<Rightarrow> Num 12)
   \<and> changeFontSize P delta st =
       (if ge_one (js_add (getCurrentFontSize (activeStates (fst st))) delta)
        then setFontSize P (js_add (getCurrentFontSize (activeStates (fst st))) delta) st else Ok st)
   \<and> editor_changeFontSize P delta ed =
       (if ge_one (js_add (getCurrentFontSize (toolbarState (fst ed))) delta)
        then editor_setFontSize P (js_add (getCurrentFontSize (toolbarState (fst ed))) delta) ed else Ok ed)
   \<and> (activeStates (fst st12) ''fontSize'' = Some (VNum (Num 12))
        \<longrightarrow> changeFontSize P (Num 1) st12 = setFontSize P (Num 13) st12)
   \<and> (toolbarState (fst ed12) ''fontSize'' = Some (VNum (Num 12))
        \<longrightarrow> editor_changeFontSize P (Num 1) ed12 = editor_setFontSize P (Num 13) ed12)
   \<and> (activeStates (fst st1) ''fontSize'' = Some (VNum (Num 1))
        \<longrightarrow> changeFontSize P (Num (- 1)) st1 = Ok st1)
   \<and> (toolbarState (fst ed1) ''fontSize'' = Some (VNum (Num 1))
        \<longrightarrow> editor_changeFontSize P (Num (- 1)) ed1 = Ok ed1)
   \<and> setManualFontSize P v st =
       (if \<not> isNaN (parseFloat P v) \<and> ge_one (parseFloat P v)
        then setFontSize P (parseFloat P v) st else Ok st)
   \<and> editor_setManualFontSize P v ed =
       (if \<not> isNaN (parseFloat P v) \<and> ge_one (parseFloat P v)
        then editor_setFontSize P (parseFloat P v) ed else Ok ed)"
  by (simp add: changeFontSize_def editor_changeFontSize_def setManualFontSize_def
      editor_setManualFontSize_def editor_getCurrentFontSize_def getCurrentFontSize_def Let_def)

lemma fresh_service_size: "activeStates (fst (fresh_service, plain_page)) ''fontSize'' = Some (VNum (Num 12))"
  by (simp add: fresh_service_def initial_states_def)
lemma fresh_component_size: "toolbarState (fst (fresh_component, plain_page)) ''fontSize'' = Some (VNum (Num 12))"
  by (simp add: fresh_component_def initial_states_def)
lemma service_at_one_size: "activeStates (fst (service_at_one, plain_page)) ''fontSize'' = Some (VNum (Num 1))"
  by (simp add: service_at_one_def fresh_service_def)
lemma component_at_one_size: "toolbarState (fst (component_at_one, plain_page)) ''fontSize'' = Some (VNum (Num 1))"
  by (simp add: component_at_one_def fresh_component_def)
lemma quiet_parseFloat: "parseFloat quiet_prims ''14.5'' = Num 14.5" "parseFloat quiet_prims ''abc'' = NaN"
  by (simp_all add: quiet_prims_def)
theorem font_size_steppers_witness:
  "activeStates (fst (fresh_service, plain_page)) ''fontSize'' = Some (VNum (Num 12))
   \<and> changeFontSize quiet_prims (Num 1) (fresh_service, plain_page)
       = setFontSize quiet_prims (Num 13) (fresh_service, plain_page)
   \<and> toolbarState (fst (fresh_component, plain_page)) ''fontSize'' = Some (VNum (Num 12))
   \<and> editor_changeFontSize quiet_prims (Num 1) (fresh_component, plain_page)
       = editor_setFontSize quiet_prims (Num 13) (fresh_component, plain_page)
   \<and> activeStates (fst (service_at_one, plain_page)) ''fontSize'' = Some (VNum (Num 1))
   \<and> changeFontSize quiet_prims (Num (- 1)) (service_at_one, plain_page) = Ok (service_at_one, plain_page)
   \<and> toolbarState (fst (component_at_one, plain_page)) ''fontSize'' = Some (VNum (Num 1))
   \<and> editor_changeFontSize quiet_prims (Num (- 1)) (component_at_one, plain_page)
       = Ok (component_at_one, plain_page)
   \<and> setManualFontSize quiet_prims ''14.5'' (fresh_service, plain_page)
       = setFontSize quiet_prims (Num 14.5) (fresh_service, plain_page)
   \<and> setManualFontSize quiet_prims ''abc'' (fresh_service, plain_page) = Ok (fresh_service, plain_page)"
proof -
  note t = font_size_steppers [where P = quiet_prims and ?st12.0 = "(fresh_service, plain_page)"
      and ?ed12.0 = "(fresh_component, plain_page)" and ?st1.0 = "(service_at_one, plain_page)"
      and ?ed1.0 = "(component_at_one, plain_page)" and st = "(fresh_service, plain_page)"]
  have m1: "setManualFontSize quiet_prims ''14.5'' (fresh_service, plain_page)
       = setFontSize quiet_prims (Num 14.5) (fresh_service, plain_page)"
    using t [where v = "''14.5''"] by (simp only: quiet_parseFloat isNaN.simps ge_one.simps) simp
  have m2: "setManualFontSize quiet_prims ''abc'' (fresh_service, plain_page) = Ok (fresh_service, plain_page)"
    using t [where v = "''abc''"] by (simp only: quiet_parseFloat isNaN.simps) simp
  show ?thesis
    using t fresh_service_size fresh_component_size service_at_one_size component_at_one_size m1 m2 by blast
qed

subsection \<open>Walking up to an editable host\<close>

lemma walk_no_host: "list_all (\<lambda>n. \<not> editable_host n) ch \<Longrightarrow> \<not> isContentEditable_walk ch"
proof (induction ch)
  case Nil
  then show ?case by simp
next
  case (Cons n ch)
  then show ?case by (cases n) auto
qed

lemma walk_barrier_first:
  "list_all (\<lambda>n. \<not> editable_host n) pre \<Longrightarrow> barrier n \<Longrightarrow> \<not> editable_host n
     \<Longrightarrow> \<not> isContentEditable_walk (pre @ n # up)"
proof (induction pre)
  case Nil
  then show ?case by (cases n) auto
next
  case (Cons m pre)
  then show ?case by (cases m) auto
qed

lemma saveSelection_not_editable:
  "\<not> isContentEditable (page b) (selectionAncestor b) \<Longrightarrow> saveSelection (s, b) = (s, b)"
  by (auto simp: selectionAncestor_def isContentEditable_def split: option.splits)

subsection \<open>Writing a value into the editor\<close>

text \<open>
  C10. \<open>writeValue(v)\<close> of the component stores the empty string for a null, undefined
  or empty \<open>v\<close> and \<open>v\<close> itself otherwise, changing no other field. It rewrites the HTML
  of the editable element only when that HTML differs from the stored value: with equal
  content, and also before the view exists, the browser state is left as it was.
\<close>

theorem writeValue_stores_and_compares:
  "fst (writeValue P v (c, b)) = c\<lparr>content := (case v of None \<Rightarrow> [] | Some x \<Rightarrow> x)\<rparr>
   \<and> content (fst (writeValue P None (c, b))) = []
   \<and> content (fst (writeValue P (Some []) (c, b))) = []
   \<and> content (fst (writeValue P (Some x) (c, b))) = x
   \<and> (editorRef c = Some ed \<and> getInnerHTML P b ed = (case v of None \<Rightarrow> [] | Some x \<Rightarrow> x)
        \<longrightarrow> snd (writeValue P v (c, b)) = b)
   \<and> (editorRef c = Some ed \<and> getInnerHTML P b ed \<noteq> (case v of None \<Rightarrow> [] | Some x \<Rightarrow> x)
        \<longrightarrow> snd (writeValue P v (c, b)) = setInnerHTML P ed (case v of None \<Rightarrow> [] | Some x \<Rightarrow> x) b)
   \<and> (editorRef c = None \<longrightarrow> snd (writeValue P v (c, b)) = b)"
  by (auto simp: Let_def split: option.splits)

theorem writeValue_stores_and_compares_witness:
  "editorRef fresh_component = Some 0
   \<and> getInnerHTML quiet_prims plain_page 0 = (case None of None \<Rightarrow> [] | Some x \<Rightarrow> x)
   \<and> snd (writeValue quiet_prims None (fresh_component, plain_page)) = plain_page
   \<and> getInnerHTML quiet_prims plain_page 0 \<noteq> (case Some ''hi'' of None \<Rightarrow> [] | Some x \<Rightarrow> x)
   \<and> snd (writeValue quiet_prims (Some ''hi'') (fresh_component, plain_page))
       = setInnerHTML quiet_prims 0 ''hi'' plain_page
   \<and> content (fst (writeValue quiet_prims (Some ''hi'') (fresh_component, plain_page))) = ''hi''
   \<and> editorRef component_without_view = None
   \<and> snd (writeValue quiet_prims (Some ''hi'') (component_without_view, plain_page)) = plain_page"
proof -
  have h: "editorRef fresh_component = Some 0" "editorRef component_without_view = None"
    "getInnerHTML quiet_prims plain_page 0 = []"
    by (simp_all add: fresh_component_def component_without_view_def quiet_prims_def)
  show ?thesis
    using h
      writeValue_stores_and_compares [where P = quiet_prims and v = None and c = fresh_component
        and b = plain_page and ed = 0]
      writeValue_stores_and_compares [where P = quiet_prims and v = "Some ''hi''" and c = fresh_component
        and b = plain_page and ed = 0 and x = "''hi''"]
      writeValue_stores_and_compares [where P = quiet_prims and v = "Some ''hi''"
        and c = component_without_view and b = plain_page]
    by simp
qed

subsection \<open>Saving and restoring the selection\<close>

lemma toolbar_page_chain:
  "chain (page toolbar_page) 5 =
     [Text 5 ''12'', Elem 4 (element ''INPUT'') [Text 5 ''12''],
      Elem 3 toolbar_div [Elem 4 (element ''INPUT'') [Text 5 ''12'']],
      document (page toolbar_page)]"
  by (simp add: chain_def toolbar_page_def)

lemma toolbar_page_range:
  "selRange toolbar_page = Some 0"
  "range_at toolbar_page 0 = Some \<lparr>rangeStart = (5, 0), rangeEnd = (5, 2)\<rparr>"
  by (simp_all add: range_at_def toolbar_page_def)

lemma toolbar_page_ancestor: "selectionAncestor toolbar_page = Some 5"
  by (simp add: selectionAncestor_def toolbar_page_range commonAncestorContainer_def
      toolbar_page_chain)

lemma toolbar_page_anchor: "anchorNode toolbar_page = Some 5"
  by (simp add: anchorNode_def toolbar_page_range)

lemma toolbar_page_outside: "\<not> contains_node (page toolbar_page) 1 (Some 5)"
  by (simp add: contains_node_def lookup_def toolbar_page_def)

lemma toolbar_page_no_host: "list_all (\<lambda>n. \<not> editable_host n) (chain (page toolbar_page) 5)"
  by (simp add: toolbar_page_chain) (simp add: toolbar_page_def element_def toolbar_div_def)

lemma chain_within:
  "chain_in i t = Some ch \<Longrightarrow> set ch \<subseteq> set (t # descendants t)"
  "chain_in_list i ts = Some ch \<Longrightarrow> set ch \<subseteq> set (descendants_list ts)"
proof (induction i t and i ts arbitrary: ch and ch rule: chain_in_chain_in_list.induct)
  case (1 i j s)
  then show ?case by (cases "i = j") simp_all
next
  case (2 i j e cs)
  show ?case
  proof (cases "i = j")
    case True
    then have "ch = [Elem j e cs]" using "2.prems" by simp
    then show ?thesis by simp
  next
    case False
    then obtain ch0 where c0: "chain_in_list i cs = Some ch0" and ch: "ch = ch0 @ [Elem j e cs]"
      using "2.prems" by (cases "chain_in_list i cs") simp_all
    have "set ch0 \<subseteq> set (descendants_list cs)"
      using "2.IH" [OF False c0] .
    then show ?thesis
      using ch by auto
  qed
next
  case (3 i)
  then show ?case by simp
next
  case (4 i n ns)
  show ?case
  proof (cases "chain_in i n")
    case None
    then have "chain_in_list i ns = Some ch"
      using "4.prems" by simp
    then have "set ch \<subseteq> set (descendants_list ns)"
      using "4.IH"(2) [OF None] by simp
    then show ?thesis by auto
  next
    case (Some ch0)
    then have "ch = ch0"
      using "4.prems" by simp
    then have "set ch \<subseteq> set (n # descendants n)"
      using "4.IH"(1) [OF Some] by simp
    then show ?thesis by auto
  qed
qed

lemma chain_absent:
  "i \<notin> nodeId ` set (t # descendants t) \<Longrightarrow> chain_in i t = None"
  "i \<notin> nodeId ` set (descendants_list ts) \<Longrightarrow> chain_in_list i ts = None"
proof (induction i t and i ts rule: chain_in_chain_in_list.induct)
  case (1 i j s)
  then show ?case by simp
next
  case (2 i j e cs)
  then show ?case by simp
next
  case (3 i)
  then show ?case by simp
next
  case (4 i n ns)
  have a: "i \<notin> nodeId ` set (n # descendants n)"
    using "4.prems" by (simp add: image_Un)
  have b: "i \<notin> nodeId ` set (descendants_list ns)"
    using "4.prems" by (simp add: image_Un)
  show ?case
    using "4.IH"(1) [OF a] "4.IH"(2) b by simp
qed

lemma distinct_subtrees:
  assumes "distinct (map nodeId (descendants_list (n0 # ns)))"
  shows "distinct (map nodeId (n0 # descendants n0))"
    and "distinct (map nodeId (descendants_list ns))"
    and "nodeId ` set (n0 # descendants n0) \<inter> nodeId ` set (descendants_list ns) = {}"
proof -
  have "distinct (map nodeId (n0 # descendants n0) @ map nodeId (descendants_list ns))"
    using assms by simp
  then have "distinct (map nodeId (n0 # descendants n0))
      \<and> distinct (map nodeId (descendants_list ns))
      \<and> set (map nodeId (n0 # descendants n0)) \<inter> set (map nodeId (descendants_list ns)) = {}"
    unfolding distinct_append .
  then show "distinct (map nodeId (n0 # descendants n0))"
    and "distinct (map nodeId (descendants_list ns))"
    and "nodeId ` set (n0 # descendants n0) \<inter> nodeId ` set (descendants_list ns) = {}"
    unfolding set_map by blast+
qed

lemma distinct_children:
  assumes "distinct (map nodeId (Elem j e cs # descendants (Elem j e cs)))"
  shows "distinct (map nodeId (descendants_list cs))"
    and "j \<notin> nodeId ` set (descendants_list cs)"
  using assms by simp_all

lemma chain_suffix:
  "chain_in i t = Some ch \<Longrightarrow> distinct (map nodeId (t # descendants t)) \<Longrightarrow> n \<in> set ch
     \<Longrightarrow> \<exists>pre ch'. chain_in (nodeId n) t = Some ch' \<and> ch = pre @ ch'"
  "chain_in_list i ts = Some ch \<Longrightarrow> distinct (map nodeId (descendants_list ts)) \<Longrightarrow> n \<in> set ch
     \<Longrightarrow> \<exists>pre ch'. chain_in_list (nodeId n) ts = Some ch' \<and> ch = pre @ ch'"
proof (induction i t and i ts arbitrary: ch and ch rule: chain_in_chain_in_list.induct)
  case (1 i j s)
  then have "i = j" by (cases "i = j") simp_all
  then have "ch = [Text j s]" using "1.prems"(1) by simp
  then have "n = Text j s" using "1.prems"(3) by simp
  then show ?case using \<open>ch = [Text j s]\<close> by simp
next
  case (2 i j e cs)
  show ?case
  proof (cases "i = j")
    case True
    then have "ch = [Elem j e cs]" using "2.prems"(1) by simp
    moreover from this have "n = Elem j e cs" using "2.prems"(3) by simp
    ultimately show ?thesis by simp
  next
    case False
    then obtain ch0 where c0: "chain_in_list i cs = Some ch0" and ch: "ch = ch0 @ [Elem j e cs]"
      using "2.prems"(1) by (cases "chain_in_list i cs") simp_all
    show ?thesis
    proof (cases "n \<in> set ch0")
      case True
      note d = distinct_children [OF "2.prems"(2)]
      obtain pre ch' where p: "chain_in_list (nodeId n) cs = Some ch'" "ch0 = pre @ ch'"
        using "2.IH" [OF False c0 d(1) True] by blast
      have "n \<in> set (descendants_list cs)"
        using chain_within(2) [OF c0] True by blast
      then have "nodeId n \<noteq> j"
        using d(2) by blast
      then have "chain_in (nodeId n) (Elem j e cs) = Some (ch' @ [Elem j e cs])"
        using p(1) by simp
      moreover have "ch = pre @ (ch' @ [Elem j e cs])"
        using p(2) ch by simp
      ultimately show ?thesis by blast
    next
      case False
      then have n: "n = Elem j e cs"
        using "2.prems"(3) ch by simp
      have "chain_in (nodeId n) (Elem j e cs) = Some [Elem j e cs]"
        unfolding n by simp
      then show ?thesis
        using ch by blast
    qed
  qed
next
  case (3 i)
  then show ?case by simp
next
  case (4 i n0 ns)
  note d = distinct_subtrees [OF "4.prems"(2)]
  show ?case
  proof (cases "chain_in i n0")
    case (Some ch0)
    then have e: "ch = ch0"
      using "4.prems"(1) by simp
    have "n \<in> set ch0"
      using "4.prems"(3) e by simp
    then obtain pre ch' where p: "chain_in (nodeId n) n0 = Some ch'" "ch0 = pre @ ch'"
      using "4.IH"(1) [OF Some d(1)] by blast
    have "chain_in_list (nodeId n) (n0 # ns) = Some ch'"
      using p(1) by simp
    then show ?thesis
      using p(2) e by blast
  next
    case None
    then have c: "chain_in_list i ns = Some ch"
      using "4.prems"(1) by simp
    have "n \<in> set (descendants_list ns)"
      using chain_within(2) [OF c] "4.prems"(3) by blast
    then have "nodeId n \<notin> nodeId ` set (n0 # descendants n0)"
      using d(3) by blast
    then have a: "chain_in (nodeId n) n0 = None"
      by (rule chain_absent(1))
    obtain pre ch' where p: "chain_in_list (nodeId n) ns = Some ch'" "ch = pre @ ch'"
      using "4.IH"(2) [OF None c d(2) "4.prems"(3)] by blast
    have "chain_in_list (nodeId n) (n0 # ns) = Some ch'"
      using a p(1) by simp
    then show ?thesis
      using p(2) by blast
  qed
qed

lemma chain_as_list:
  "chain d i = (case chain_in_list i (document d # detached d) of Some ch \<Rightarrow> ch | None \<Rightarrow> [])"
  by (simp add: chain_def split: option.splits)

lemma chain_of_member:
  assumes "distinct_ids d" and "n \<in> set (chain d i)"
  shows "\<exists>pre. chain d i = pre @ chain d (nodeId n)"
proof -
  obtain ch where c: "chain_in_list i (document d # detached d) = Some ch" and e: "chain d i = ch"
    using assms(2) by (cases "chain_in_list i (document d # detached d)") (simp_all add: chain_as_list)
  obtain pre ch' where "chain_in_list (nodeId n) (document d # detached d) = Some ch'" "ch = pre @ ch'"
    using chain_suffix(2) [OF c] assms e unfolding distinct_ids_def by blast
  then show ?thesis
    using e by (auto simp: chain_as_list)
qed

lemma list_all_suffix: "list_all P (pre @ xs) \<Longrightarrow> list_all P xs"
  by simp

lemma commonAncestor_on_chains:
  assumes "commonAncestorContainer d r = Some c"
  shows "(\<exists>n \<in> set (chain d (fst (rangeStart r))). nodeId n = c)
       \<and> (\<exists>n \<in> set (chain d (fst (rangeEnd r))). nodeId n = c)"
proof -
  obtain n where f: "find (\<lambda>n. nodeId n \<in> set (map nodeId (chain d (fst (rangeEnd r)))))
          (chain d (fst (rangeStart r))) = Some n" and c: "nodeId n = c"
    using assms unfolding commonAncestorContainer_def by (auto simp: map_option_case split: option.splits)
  have "n \<in> set (chain d (fst (rangeStart r)))"
    and "nodeId n \<in> set (map nodeId (chain d (fst (rangeEnd r))))"
    using f unfolding find_Some_iff by (auto simp: in_set_conv_nth)
  then show ?thesis
    using c by auto
qed

lemma saveSelection_anchor_outside:
  assumes wf: "distinct_ids (page b)"
    and anchor: "anchorNode b = Some a"
    and outside: "list_all (\<lambda>n. \<not> editable_host n) (chain (page b) a)"
  shows "saveSelection (s, b) = (s, b)"
proof -
  obtain k r where k: "selRange b = Some k" and r: "range_at b k = Some r"
    and a: "a = fst (if selBackward b then rangeEnd r else rangeStart r)"
    using anchor unfolding anchorNode_def by (auto split: option.splits)
  have anc: "selectionAncestor b = commonAncestorContainer (page b) r"
    using k r by (simp add: selectionAncestor_def)
  have "\<not> isContentEditable (page b) (commonAncestorContainer (page b) r)"
  proof (cases "commonAncestorContainer (page b) r")
    case None
    then show ?thesis by (simp add: isContentEditable_def)
  next
    case (Some c)
    have "\<exists>n \<in> set (chain (page b) a). nodeId n = c"
      using commonAncestor_on_chains [OF Some] a by (cases "selBackward b") simp_all
    then obtain n where n: "n \<in> set (chain (page b) a)" "nodeId n = c"
      by blast
    obtain pre where "chain (page b) a = pre @ chain (page b) c"
      using chain_of_member [OF wf n(1)] n(2) by blast
    then have "list_all (\<lambda>n. \<not> editable_host n) (chain (page b) c)"
      using outside list_all_suffix by metis
    then show ?thesis
      using walk_no_host Some by (simp add: isContentEditable_def)
  qed
  then show ?thesis
    using anc by (intro saveSelection_not_editable) simp
qed

lemma editor_saveSelection_anchor_inside:
  assumes "selectionObject b" and "selRange b = Some k" and "range_at b k = Some r"
    and "editorRef c = Some ed" and "contains_node (page b) ed (anchorNode b)"
  shows "editor_saveSelection (c, b)
           = Ok (c\<lparr>editorSavedRange := Some (length (ranges b))\<rparr>, b\<lparr>ranges := ranges b @ [r]\<rparr>)"
  using assms by (simp add: rangeCount_def cloneRange_def)

text \<open>
  C5, as the code has it. The service tests the common ancestor of the live selection:
  when no editable element lies on the way from it up to the root, saving leaves the
  saved range, and everything else, unchanged; and since the common ancestor is the anchor
  or above it, this is so too whenever no editable element lies on the way up from the
  anchor. The component tests the anchor alone: when the anchor is not inside the editor
  element, saving changes nothing, and when it is inside, the range of the selection is
  saved, wherever its common ancestor lies. Restoring when no range was ever saved changes
  nothing, the live selection included, and does not raise.
\<close>

theorem save_outside_restore_unset:
  "(selectionAncestor b = Some i \<and> list_all (\<lambda>n. \<not> editable_host n) (chain (page b) i)
      \<longrightarrow> saveSelection (s, b) = (s, b))
   \<and> (distinct_ids (page b) \<and> anchorNode b = Some a
        \<and> list_all (\<lambda>n. \<not> editable_host n) (chain (page b) a)
      \<longrightarrow> saveSelection (s, b) = (s, b))
   \<and> (editorRef c = Some ed \<and> \<not> contains_node (page b) ed (anchorNode b)
      \<longrightarrow> editor_saveSelection (c, b) = Ok (c, b))
   \<and> (selectionObject b \<and> selRange b = Some k \<and> range_at b k = Some r
        \<and> editorRef c = Some ed \<and> contains_node (page b) ed (anchorNode b)
      \<longrightarrow> editor_saveSelection (c, b)
            = Ok (c\<lparr>editorSavedRange := Some (length (ranges b))\<rparr>, b\<lparr>ranges := ranges b @ [r]\<rparr>))
   \<and> (savedRange s0 = None \<longrightarrow> restoreSelection (s0, b0) = (s0, b0))
   \<and> (editorSavedRange c0 = None \<longrightarrow> editor_restoreSelection (c0, b0) = (c0, b0))"
proof -
  have 1: "saveSelection (s, b) = (s, b)"
    if "selectionAncestor b = Some i" "list_all (\<lambda>n. \<not> editable_host n) (chain (page b) i)"
    using that walk_no_host [of "chain (page b) i"]
    by (intro saveSelection_not_editable) (simp add: isContentEditable_def)
  have 2: "editor_saveSelection (c, b) = Ok (c, b)"
    if "editorRef c = Some ed" "\<not> contains_node (page b) ed (anchorNode b)"
    using that by simp
  have 3: "restoreSelection (s0, b0) = (s0, b0)" if "savedRange s0 = None"
    using that by simp
  have 4: "editor_restoreSelection (c0, b0) = (c0, b0)" if "editorSavedRange c0 = None"
    using that by simp
  show ?thesis
    using 1 2 3 4 saveSelection_anchor_outside [of b a s]
      editor_saveSelection_anchor_inside [of b k r c ed]
    by blast
qed

lemma straddling_page_facts:
  "selectionObject straddling_page"
  "selRange straddling_page = Some 0"
  "range_at straddling_page 0 = Some \<lparr>rangeStart = (2, 0), rangeEnd = (4, 1)\<rparr>"
  "anchorNode straddling_page = Some 2"
  "contains_node (page straddling_page) 1 (Some 2)"
  "length (ranges straddling_page) = 2"
  by code_simp+

lemma toolbar_page_distinct: "distinct_ids (page toolbar_page)"
  by code_simp

theorem save_outside_restore_unset_witness:
  "savedRange service_with_range = Some 1
   \<and> selectionAncestor toolbar_page = Some 5
   \<and> list_all (\<lambda>n. \<not> editable_host n) (chain (page toolbar_page) 5)
   \<and> distinct_ids (page toolbar_page)
   \<and> anchorNode toolbar_page = Some 5
   \<and> saveSelection (service_with_range, toolbar_page) = (service_with_range, toolbar_page)
   \<and> editorRef component_with_range = Some 1
   \<and> \<not> contains_node (page toolbar_page) 1 (anchorNode toolbar_page)
   \<and> editor_saveSelection (component_with_range, toolbar_page) = Ok (component_with_range, toolbar_page)
   \<and> contains_node (page straddling_page) 1 (anchorNode straddling_page)
   \<and> editor_saveSelection (component_with_range, straddling_page)
       = Ok (component_with_range\<lparr>editorSavedRange := Some 2\<rparr>,
             straddling_page\<lparr>ranges := ranges straddling_page
                                @ [\<lparr>rangeStart = (2, 0), rangeEnd = (4, 1)\<rparr>]\<rparr>)
   \<and> savedRange fresh_service = None
   \<and> restoreSelection (fresh_service, toolbar_page) = (fresh_service, toolbar_page)
   \<and> editorSavedRange fresh_component = None
   \<and> editor_restoreSelection (fresh_component, toolbar_page) = (fresh_component, toolbar_page)"
proof -
  have h1: "savedRange service_with_range = Some 1" "editorRef component_with_range = Some 1"
    "savedRange fresh_service = None" "editorSavedRange fresh_component = None"
    by (simp_all add: service_with_range_def component_with_range_def fresh_service_def
        fresh_component_def)
  show ?thesis
    using save_outside_restore_unset [where b = toolbar_page and i = 5 and a = 5
        and s = service_with_range
        and c = component_with_range and ed = 1 and ?s0.0 = fresh_service and ?c0.0 = fresh_component
        and ?b0.0 = toolbar_page]
      save_outside_restore_unset [where b = straddling_page and k = 0
        and r = "\<lparr>rangeStart = (2, 0), rangeEnd = (4, 1)\<rparr>"
        and c = component_with_range and ed = 1]
      h1 toolbar_page_ancestor toolbar_page_no_host toolbar_page_anchor toolbar_page_outside
      toolbar_page_distinct straddling_page_facts
    by simp
qed

text \<open>
  The claim as it is written fails on the component. On the page
  \<open><body><div contenteditable="true">x</div><p>y</p></body>\<close>, with the selection running
  from the \<open>x\<close> of the editor to the \<open>y\<close> outside it, the common ancestor of the
  selection is the body, which lies outside the editor; \<open>saveSelection\<close> of the component
  looks at the anchor, finds it inside and replaces the saved range, while the service
  keeps the range it had.
\<close>

theorem save_straddling_counterexample:
  "selectionAncestor straddling_page = Some 0
   \<and> \<not> contains_node (page straddling_page) 1 (selectionAncestor straddling_page)
   \<and> editorRef component_with_range = Some 1
   \<and> editorSavedRange component_with_range = Some 1
   \<and> editorSavedRange (fst (state_of (editor_saveSelection (component_with_range, straddling_page))))
       = Some 2
   \<and> saveSelection (service_with_range, straddling_page) = (service_with_range, straddling_page)"
proof -
  have "\<not> isContentEditable (page straddling_page) (selectionAncestor straddling_page)"
    by code_simp
  then have "saveSelection (service_with_range, straddling_page) = (service_with_range, straddling_page)"
    by (rule saveSelection_not_editable)
  moreover have "selectionAncestor straddling_page = Some 0"
    "\<not> contains_node (page straddling_page) 1 (selectionAncestor straddling_page)"
    "editorRef component_with_range = Some 1"
    "editorSavedRange component_with_range = Some 1"
    "editorSavedRange (fst (state_of (editor_saveSelection (component_with_range, straddling_page))))
       = Some 2"
    by code_simp+
  ultimately show ?thesis
    by blast
qed

lemma embedded_page_chain:
  "chain (page embedded_toolbar_page) 5 =
     [Text 5 ''12'', Elem 4 (element ''INPUT'') [Text 5 ''12'']]
     @ Elem 3 toolbar_div [Elem 4 (element ''INPUT'') [Text 5 ''12'']]
     # [Elem 1 editable_div
          [Text 2 ''x'', Elem 3 toolbar_div [Elem 4 (element ''INPUT'') [Text 5 ''12'']]],
        document (page embedded_toolbar_page)]"
  by (simp add: chain_def embedded_toolbar_page_def)

lemma embedded_page_range:
  "selRange embedded_toolbar_page = Some 0"
  "range_at embedded_toolbar_page 0 = Some \<lparr>rangeStart = (5, 0), rangeEnd = (5, 2)\<rparr>"
  by (simp_all add: range_at_def embedded_toolbar_page_def)

lemma embedded_page_ancestor: "selectionAncestor embedded_toolbar_page = Some 5"
  by (simp add: selectionAncestor_def embedded_page_range commonAncestorContainer_def
      embedded_page_chain)

text \<open>
  C9. \<open>saveSelection\<close> of the service never captures a selection of the toolbar or of a
  region that is not editable. When the walk from the common ancestor of the range meets
  an element with \<open>contenteditable="false"\<close> or with the class \<open>floating-toolbar\<close> before
  any element with \<open>contenteditable="true"\<close>, or meets no such element up to the root,
  the saved range stays as it was. (An element that carries the class and
  \<open>contenteditable="true"\<close> at once counts as editable: the code tests the attribute first.)
\<close>

theorem saveSelection_skips_toolbar:
  assumes "selectionAncestor b = Some i"
    and "(\<exists>pre n up. chain (page b) i = pre @ n # up \<and> list_all (\<lambda>m. \<not> editable_host m) pre
            \<and> barrier n \<and> \<not> editable_host n)
         \<or> list_all (\<lambda>m. \<not> editable_host m) (chain (page b) i)"
  shows "saveSelection (s, b) = (s, b)"
proof -
  have "\<not> isContentEditable_walk (chain (page b) i)"
    using assms(2) walk_barrier_first walk_no_host by fastforce
  then show ?thesis
    using assms(1) by (intro saveSelection_not_editable) (simp add: isContentEditable_def)
qed

theorem saveSelection_skips_toolbar_witness:
  "selectionAncestor embedded_toolbar_page = Some 5
   \<and> editable_host (Elem 1 editable_div
          [Text 2 ''x'', Elem 3 toolbar_div [Elem 4 (element ''INPUT'') [Text 5 ''12'']]])
   \<and> barrier (Elem 3 toolbar_div [Elem 4 (element ''INPUT'') [Text 5 ''12'']])
   \<and> saveSelection (service_with_range, embedded_toolbar_page)
       = (service_with_range, embedded_toolbar_page)"
proof -
  have b: "barrier (Elem 3 toolbar_div [Elem 4 (element ''INPUT'') [Text 5 ''12'']])"
    "\<not> editable_host (Elem 3 toolbar_div [Elem 4 (element ''INPUT'') [Text 5 ''12'']])"
    "list_all (\<lambda>m. \<not> editable_host m) [Text 5 ''12'', Elem 4 (element ''INPUT'') [Text 5 ''12'']]"
    "editable_host (Elem 1 editable_div
          [Text 2 ''x'', Elem 3 toolbar_div [Elem 4 (element ''INPUT'') [Text 5 ''12'']]])"
    by (simp_all add: toolbar_div_def element_def editable_div_def)
  have "saveSelection (service_with_range, embedded_toolbar_page)
       = (service_with_range, embedded_toolbar_page)"
    by (rule saveSelection_skips_toolbar [OF embedded_page_ancestor])
      (use b embedded_page_chain in blast)
  then show ?thesis
    using b embedded_page_ancestor by simp
qed

subsection \<open>The flag of the service\<close>

lemma flag_saveSelection: "flag_part (fst (saveSelection st)) = flag_part (fst st)"
  by (cases st) (auto simp: flag_part_def cloneRange_def split: option.splits)

lemma fst_restoreSelection: "fst (restoreSelection st) = fst st"
  by (cases st) (auto split: option.splits)

lemma flag_updateActiveStates: "flag_part (fst (updateActiveStates P st)) = flag_part (fst st)"
  by (cases st) (auto simp: flag_part_def split: option.splits)

lemma flag_forceFontSize: "flag_part (forceFontSize sz s) = flag_part s"
  by (simp add: flag_part_def forceFontSize_def)

lemma flag_saveAndForce: "flag_part (fst (saveAndForce sz st)) = flag_part (fst st)"
  using flag_saveSelection [of st]
  by (cases "saveSelection st") (simp add: saveAndForce_def flag_forceFontSize)

lemma flag_finally:
  "flag_part (fst (state_of r)) = (True, L @ [True])
     \<Longrightarrow> flag_part (fst (state_of (finally_clear r))) = (False, L @ [True, False])"
  by (cases r) (auto simp: finally_clear_def flag_part_def isUpdating_next_def split: prod.splits)

lemma fst_runCommand: "flag_part (fst (state_of (runCommand P command val st))) = flag_part (fst st)"
  unfolding runCommand_def
proof (rule and_then_inv [where Q = "\<lambda>x. flag_part (fst x) = flag_part (fst st)"])
  show "flag_part (fst (state_of (and_then
          (on_browser (document_execCommand P ''styleWithCSS'' ''true'') st)
          (on_browser (document_execCommand P command val))))) = flag_part (fst st)"
    by (rule and_then_inv [where Q = "\<lambda>x. flag_part (fst x) = flag_part (fst st)"])
      (simp_all add: fst_on_browser)
next
  fix x :: "service \<times> browser"
  assume "flag_part (fst x) = flag_part (fst st)"
  then show "flag_part (fst (state_of (Ok (updateActiveStates P (saveSelection x))))) = flag_part (fst st)"
    by (simp add: flag_updateActiveStates flag_saveSelection
        del: updateActiveStates.simps saveSelection.simps)
qed

lemma fst_markSelection: "fst (state_of (markSelection P st)) = fst st"
  unfolding markSelection_def
  by (intro and_then_inv [where Q = "\<lambda>x. fst x = fst st"]) (simp_all add: fst_on_browser)

lemma flag_rewriteMarked: "flag_part (fst (state_of (rewriteMarked sz st))) = flag_part (fst st)"
proof (cases st)
  case (Pair s b)
  show ?thesis
  proof (cases "searchContainer s b")
    case (Inl e)
    with Pair show ?thesis by (simp add: rewriteMarked_def)
  next
    case (Inr container)
    obtain b1 newSpans where rw: "rewrite_page sz container b = (b1, newSpans)"
      by (cases "rewrite_page sz container b")
    have "flag_part (fst (state_of (and_then (on_browser (reselect newSpans) (s, b1))
            (\<lambda>st1. Ok (saveAndForce sz st1))))) = flag_part s"
      by (rule and_then_inv [where Q = "\<lambda>x. flag_part (fst x) = flag_part s"])
        (simp_all add: fst_on_browser flag_saveAndForce del: on_browser.simps)
    with Pair Inr rw show ?thesis by (simp add: rewriteMarked_def)
  qed
qed

lemma flag_raised: "flag_part (isUpdating_next True s) = (True, isUpdatingLog s @ [True])"
  by (simp add: flag_part_def isUpdating_next_def)

lemma flag_executeCommand:
  "flag_part (fst (state_of (executeCommand P command val (s, b)))) = (False, isUpdatingLog s @ [True, False])"
  unfolding executeCommand_def prod.case
proof (rule flag_finally)
  have "fst (restoreSelection (isUpdating_next True s, b)) = isUpdating_next True s"
    by (simp only: fst_restoreSelection fst_conv)
  then show "flag_part (fst (state_of (runCommand P command val
        (restoreSelection (isUpdating_next True s, b))))) = (True, isUpdatingLog s @ [True])"
    by (simp only: fst_runCommand flag_raised)
qed

lemma flag_setFontSize:
  "flag_part (fst (state_of (setFontSize P sz (s, b)))) = (False, isUpdatingLog s @ [True, False])"
  unfolding setFontSize_def prod.case
proof (rule flag_finally, rule and_then_inv [where Q = "\<lambda>x. flag_part (fst x) = (True, isUpdatingLog s @ [True])"])
  show "flag_part (fst (state_of (markSelection P (restoreSelection (isUpdating_next True s, b)))))
          = (True, isUpdatingLog s @ [True])"
    by (simp only: fst_markSelection fst_restoreSelection fst_conv flag_raised)
next
  fix x :: "service \<times> browser"
  assume "flag_part (fst x) = (True, isUpdatingLog s @ [True])"
  then show "flag_part (fst (state_of (rewriteMarked sz x))) = (True, isUpdatingLog s @ [True])"
    by (simp add: flag_rewriteMarked)
qed

lemma toolbar_in_editor: "toolbar (fst (state_of (in_editor f st))) = toolbar (fst st)"
  by (cases st; cases "f (editor (fst st), snd st)") auto

lemma toolbar_in_toolbar: "toolbar (fst (state_of (in_toolbar f (a, b)))) = fst (state_of (f (toolbar a, b)))"
  by (cases "f (toolbar a, b)") auto

lemma raising_setFontSize: "raised (setFontSize raising_prims (Num 18) (fresh_service, plain_page))"
  by (simp add: setFontSize_def markSelection_def document_execCommand_def raising_prims_def
      quiet_prims_def finally_clear_def fresh_service_def isUpdating_next_def)

text \<open>
  C4, as the code has it. Every \<open>executeCommand\<close> and every \<open>setFontSize\<close> of the toolbar
  service puts \<open>true\<close> on \<open>isUpdating\<close> at entry and \<open>false\<close> when it ends, and nothing
  in between, whether the body returns or an inner step raises. The editor component has
  no such flag: its \<open>execCommand\<close> and \<open>setFontSize\<close> leave the service, and so the flag,
  as they found it.
\<close>

theorem isUpdating_held_by_service:
  "flag_held (a, b) (in_toolbar (executeCommand P command val) (a, b))
   \<and> flag_held (a, b) (in_toolbar (setFontSize P sz) (a, b))
   \<and> toolbar (fst (state_of (in_editor (execCommand P command val) (a, b)))) = toolbar a
   \<and> toolbar (fst (state_of (in_editor (editor_setFontSize P sz) (a, b)))) = toolbar a"
proof -
  have "flag_held (a, b) (in_toolbar (executeCommand P command val) (a, b))"
    using flag_executeCommand [of P command val "toolbar a" b]
    by (simp add: flag_held_def toolbar_in_toolbar flag_part_def del: in_toolbar.simps)
  moreover have "flag_held (a, b) (in_toolbar (setFontSize P sz) (a, b))"
    using flag_setFontSize [of P sz "toolbar a" b]
    by (simp add: flag_held_def toolbar_in_toolbar flag_part_def del: in_toolbar.simps)
  ultimately show ?thesis
    by (simp add: toolbar_in_editor del: in_editor.simps)
qed

theorem isUpdating_held_by_service_witness:
  "flag_held (fresh_app, plain_page)
     (in_toolbar (executeCommand quiet_prims ''bold'' []) (fresh_app, plain_page))
   \<and> raised (setFontSize raising_prims (Num 18) (toolbar fresh_app, plain_page))
   \<and> flag_held (fresh_app, plain_page)
     (in_toolbar (setFontSize raising_prims (Num 18)) (fresh_app, plain_page))"
  using isUpdating_held_by_service [of fresh_app plain_page quiet_prims]
    isUpdating_held_by_service [of fresh_app plain_page raising_prims] raising_setFontSize
  by (simp add: fresh_app_def)

text \<open>
  The claim as it is written, for both variants, fails on the component: after its
  \<open>setFontSize\<close> and after its \<open>execCommand\<close> nothing was put on \<open>isUpdating\<close>.
\<close>

theorem isUpdating_component_counterexample:
  "\<not> flag_held (fresh_app, plain_page)
       (in_editor (editor_setFontSize quiet_prims (Num 18)) (fresh_app, plain_page))
   \<and> \<not> flag_held (fresh_app, plain_page)
       (in_editor (execCommand quiet_prims ''bold'' []) (fresh_app, plain_page))"
  by (simp add: flag_held_def toolbar_in_editor del: in_editor.simps)

subsection \<open>The guard on a disabled surface\<close>

lemma execLog_document_execCommand:
  "execLog (state_of (document_execCommand P c v b)) = execLog b @ [(c, v)]"
  by (cases "native P c v b") (simp_all add: document_execCommand_def)

lemma execLog_restoreSelection: "execLog (snd (restoreSelection st)) = execLog (snd st)"
  by (cases st) (auto simp: addRange_def removeAllRanges_def split: option.splits)

lemma execLog_saveSelection: "execLog (snd (saveSelection st)) = execLog (snd st)"
  by (cases st) (auto simp: cloneRange_def split: option.splits)

lemma snd_updateActiveStates: "snd (updateActiveStates P st) = snd st"
  by (cases st) (auto split: option.splits)

lemma execLog_runCommand:
  "execLog (snd (state_of (runCommand P command val (s, b)))) =
     (if raised (document_execCommand P ''styleWithCSS'' ''true'' b)
      then execLog b @ [(''styleWithCSS'', ''true'')]
      else execLog b @ [(''styleWithCSS'', ''true''), (command, val)])"
proof (cases "document_execCommand P ''styleWithCSS'' ''true'' b")
  case (Raised e b1)
  then show ?thesis
    using execLog_document_execCommand [of P "''styleWithCSS''" "''true''" b]
    by (simp add: runCommand_def)
next
  case (Ok b1)
  note first = this
  have l1: "execLog b1 = execLog b @ [(''styleWithCSS'', ''true'')]"
    using execLog_document_execCommand [of P "''styleWithCSS''" "''true''" b] first by simp
  show ?thesis
  proof (cases "document_execCommand P command val b1")
    case (Raised e b2)
    then show ?thesis
      using execLog_document_execCommand [of P command val b1] first l1
      by (simp add: runCommand_def)
  next
    case (Ok b2)
    then show ?thesis
      using execLog_document_execCommand [of P command val b1] first l1
      by (simp add: runCommand_def snd_updateActiveStates execLog_saveSelection
          del: updateActiveStates.simps saveSelection.simps)
  qed
qed

lemma snd_finally_clear: "snd (state_of (finally_clear r)) = snd (state_of r)"
  by (cases r) (auto simp: finally_clear_def split: prod.splits)

lemma quiet_styleWithCSS_returns:
  "\<not> raised (document_execCommand quiet_prims ''styleWithCSS'' ''true''
        (snd (restoreSelection (isUpdating_next True fresh_service, disabled_page))))"
  by code_simp

lemma raising_styleWithCSS_raises:
  "raised (document_execCommand raising_prims ''styleWithCSS'' ''true''
        (snd (restoreSelection (isUpdating_next True fresh_service, disabled_page))))"
  by code_simp

text \<open>
  C6, as the code has it. \<open>execCommand\<close> of the component on a disabled editor returns at
  once: no native command is called, and content, saved range and toolbar state are
  unchanged. \<open>executeCommand\<close> of the service has no such guard: whatever the state of the
  surface, it calls the native \<open>styleWithCSS\<close> command on the browser it has restored the
  selection in; if that call raised, nothing else is called, and if it returned, the command
  asked for is called next, with the value asked for, and no other native command.
\<close>

theorem disabled_guard_only_in_component:
  "(isDisabled c \<longrightarrow> execCommand P command val (c, b) = Ok (c, b))
   \<and> execLog (snd (state_of (executeCommand P command val (s, b)))) =
       (if raised (document_execCommand P ''styleWithCSS'' ''true''
                     (snd (restoreSelection (isUpdating_next True s, b))))
        then execLog b @ [(''styleWithCSS'', ''true'')]
        else execLog b @ [(''styleWithCSS'', ''true''), (command, val)])"
proof -
  obtain s1 b1 where r: "restoreSelection (isUpdating_next True s, b) = (s1, b1)"
    by (cases "restoreSelection (isUpdating_next True s, b)")
  have "execLog b1 = execLog b"
    using execLog_restoreSelection [of "(isUpdating_next True s, b)"] r by simp
  then have "execLog (snd (state_of (executeCommand P command val (s, b)))) =
       (if raised (document_execCommand P ''styleWithCSS'' ''true'' b1)
        then execLog b @ [(''styleWithCSS'', ''true'')]
        else execLog b @ [(''styleWithCSS'', ''true''), (command, val)])"
    using execLog_runCommand [of P command val s1 b1] r
    by (simp add: executeCommand_def snd_finally_clear del: restoreSelection.simps)
  then show ?thesis
    using r by (simp add: execCommand_def del: restoreSelection.simps)
qed

theorem disabled_guard_only_in_component_witness:
  "isDisabled (fresh_component\<lparr>isDisabled := True\<rparr>)
   \<and> execCommand quiet_prims ''bold'' [] (fresh_component\<lparr>isDisabled := True\<rparr>, disabled_page)
       = Ok (fresh_component\<lparr>isDisabled := True\<rparr>, disabled_page)
   \<and> execLog (snd (state_of (executeCommand quiet_prims ''bold'' [] (fresh_service, disabled_page))))
       = execLog disabled_page @ [(''styleWithCSS'', ''true''), (''bold'', [])]
   \<and> execLog (snd (state_of (executeCommand raising_prims ''bold'' [] (fresh_service, disabled_page))))
       = execLog disabled_page @ [(''styleWithCSS'', ''true'')]"
  using disabled_guard_only_in_component [of "fresh_component\<lparr>isDisabled := True\<rparr>" quiet_prims
      "''bold''" "[]" disabled_page fresh_service]
    disabled_guard_only_in_component [of "fresh_component\<lparr>isDisabled := True\<rparr>" raising_prims
      "''bold''" "[]" disabled_page fresh_service]
    quiet_styleWithCSS_returns raising_styleWithCSS_raises
  by simp

lemma quiet_document_execCommand:
  "document_execCommand quiet_prims c v b = Ok (b\<lparr>execLog := execLog b @ [(c, v)]\<rparr>)"
  by (simp add: document_execCommand_def quiet_prims_def)

text \<open>
  The claim as it is written fails on the service: on a surface with
  \<open>contenteditable="false"\<close>, \<open>executeCommand('bold')\<close> calls two native commands.
\<close>

theorem disabled_service_counterexample:
  "executeCommand quiet_prims ''bold'' [] (fresh_service, disabled_page)
     \<noteq> Ok (fresh_service, disabled_page)
   \<and> execLog (snd (state_of (executeCommand quiet_prims ''bold'' [] (fresh_service, disabled_page))))
       = [(''styleWithCSS'', ''true''), (''bold'', [])]"
proof -
  have r: "restoreSelection (isUpdating_next True fresh_service, disabled_page)
             = (isUpdating_next True fresh_service, disabled_page)"
    by (simp add: isUpdating_next_def fresh_service_def)
  have l: "execLog (snd (state_of (executeCommand quiet_prims ''bold'' [] (fresh_service, disabled_page))))
       = execLog disabled_page @ [(''styleWithCSS'', ''true''), (''bold'', [])]"
    unfolding executeCommand_def prod.case r snd_finally_clear
    by (simp add: runCommand_def quiet_document_execCommand snd_updateActiveStates
        execLog_saveSelection del: updateActiveStates.simps saveSelection.simps)
  have e: "execLog disabled_page = []"
    by (simp add: disabled_page_def)
  have "execLog (snd (state_of (Ok (fresh_service, disabled_page)))) = []"
    using e by simp
  with l e show ?thesis by auto
qed

subsection \<open>The format state after a font size is set\<close>


















subsection \<open>Tree operations away from a node\<close>

lemma find_notin:
  "i \<notin> nodeId ` set (n # descendants n) \<Longrightarrow> find_node i n = None"
  "i \<notin> nodeId ` set (descendants_list ns) \<Longrightarrow> find_in i ns = None"
  by (induction i n and i ns rule: find_node_find_in.induct) (auto split: option.splits)

lemma modify_notin:
  "i \<notin> nodeId ` set (n # descendants n) \<Longrightarrow> modify_node i f n = n"
  "i \<notin> nodeId ` set (descendants_list ns) \<Longrightarrow> modify_in i f ns = ns"
  by (induction i f n and i f ns rule: modify_node_modify_in.induct) auto

lemma splice_notin:
  "i \<notin> nodeId ` set (descendants n) \<Longrightarrow> splice_node i new n = n"
  "i \<notin> nodeId ` set (descendants_list ns) \<Longrightarrow> splice_in i new ns = ns"
  by (induction i new n and i new ns rule: splice_node_splice_in.induct) auto

lemma top_ids_subset: "set ns \<subseteq> set (descendants_list ns)"
  by (induction ns) auto

lemma parent_notin:
  "i \<notin> nodeId ` set (descendants n) \<Longrightarrow> parent_in i n = None"
  "i \<notin> nodeId ` set (descendants_list ns) \<Longrightarrow> parent_in_list i ns = None"
  using top_ids_subset
  by (induction i n and i ns rule: parent_in_parent_in_list.induct) (auto split: option.splits)

lemma descendants_list_append: "descendants_list (xs @ ys) = descendants_list xs @ descendants_list ys"
  by (induction xs) auto

lemma find_in_append:
  "find_in i (xs @ ys) = (case find_in i xs of Some m \<Rightarrow> Some m | None \<Rightarrow> find_in i ys)"
  by (induction xs) (auto split: option.splits)

lemma modify_in_append: "modify_in i f (xs @ ys) = modify_in i f xs @ modify_in i f ys"
  by (induction xs) auto

lemma parent_in_list_append:
  "parent_in_list i (xs @ ys) = (case parent_in_list i xs of Some p \<Rightarrow> Some p | None \<Rightarrow> parent_in_list i ys)"
  by (induction xs) (auto split: option.splits)

lemma splice_in_append:
  "i \<notin> nodeId ` set (descendants_list xs) \<Longrightarrow> splice_in i new (xs @ ys) = xs @ splice_in i new ys"
  by (induction xs) (auto simp: splice_notin image_Un)

lemma map_splice_notin:
  "i \<notin> nodeId ` set (descendants_list ns) \<Longrightarrow> map (splice_node i new) ns = ns"
  by (induction ns) (auto simp: splice_notin image_Un)

subsection \<open>Resizing a run that has a wrapper\<close>

lemma filter_no_markers:
  "list_all (\<lambda>n. \<not> isMarker n) ns \<Longrightarrow> filter isFontMarker ns = [] \<and> filter isSpanMarker ns = []"
  by (induction ns) (auto simp: isMarker_def)

lemma clone_grows:
  "clone_node k n = (n', k') \<Longrightarrow> k < k'"
  "clone_list k ns = (ns', k') \<Longrightarrow> k \<le> k'"
  by (induction k n and k ns arbitrary: n' k' and ns' k' rule: clone_node_clone_list.induct)
    (fastforce split: prod.splits)+

lemma processMarker_allocates:
  assumes "lookup (forest_modify el cleanDescendants d) el = Some mk"
  shows "(nextId (fst (processMarker sz (d, ns) el)) = nextId d)
           = isParentFontSpan (parentNode (forest_modify el cleanDescendants d) el)"
proof (cases "isParentFontSpan (parentNode (forest_modify el cleanDescendants d) el)")
  case True
  then obtain p where "parentNode (forest_modify el cleanDescendants d) el = Some p"
    by (cases "parentNode (forest_modify el cleanDescendants d) el") auto
  with True assms show ?thesis
    by (simp add: processMarker_def Let_def forest_modify_def forest_splice_def)
next
  case False
  obtain kids k where c: "clone_list (Suc (nextId d)) (reparsed_list (childNodes mk)) = (kids, k)"
    by (cases "clone_list (Suc (nextId d)) (reparsed_list (childNodes mk))")
  then have "nextId d < k"
    using clone_grows(2) [OF c] by simp
  with False assms c show ?thesis
    by (auto simp: processMarker_def Let_def forest_modify_def forest_splice_def split: option.splits)
qed

lemma nodeId_plug: "nodeId (plug ctx t) \<in> insert (nodeId t) (nodeId ` set (frame_elems ctx))"
  by (induction ctx t rule: plug.induct) auto

lemma plug_root_differs:
  "i \<noteq> nodeId t \<Longrightarrow> i \<notin> nodeId ` set (frame_elems ctx) \<Longrightarrow> nodeId (plug ctx t) \<noteq> i"
  using nodeId_plug [of ctx t] by auto

lemma modify_plug:
  "i \<notin> nodeId ` set (frame_elems ctx) \<Longrightarrow> i \<notin> nodeId ` set (descendants_list (frame_siblings ctx))
     \<Longrightarrow> modify_node i f (plug ctx t) = plug ctx (modify_node i f t)"
  by (induction ctx t rule: plug.induct)
    (auto simp: modify_in_append modify_notin descendants_list_append image_Un)

lemma find_plug:
  "i \<notin> nodeId ` set (frame_elems ctx) \<Longrightarrow> i \<notin> nodeId ` set (descendants_list (frame_siblings ctx))
     \<Longrightarrow> find_node i t \<noteq> None \<Longrightarrow> find_node i (plug ctx t) = find_node i t"
  by (induction ctx t rule: plug.induct)
    (auto simp: find_in_append find_notin descendants_list_append image_Un split: option.splits)

lemma splice_plug:
  "i \<notin> nodeId ` set (frame_elems ctx) \<Longrightarrow> i \<notin> nodeId ` set (descendants_list (frame_siblings ctx))
     \<Longrightarrow> i \<noteq> nodeId t \<Longrightarrow> splice_node i new (plug ctx t) = plug ctx (splice_node i new t)"
proof (induction ctx t rule: plug.induct)
  case (1 t)
  then show ?case by simp
next
  case (2 j e before after ctx t)
  then have "nodeId (plug ctx t) \<noteq> i"
    by (intro plug_root_differs) auto
  with 2 show ?case
    by (auto simp: splice_in_append splice_notin descendants_list_append image_Un)
qed

lemma parent_plug:
  "i \<notin> nodeId ` set (frame_elems ctx) \<Longrightarrow> i \<notin> nodeId ` set (descendants_list (frame_siblings ctx))
     \<Longrightarrow> i \<noteq> nodeId t \<Longrightarrow> parent_in i t \<noteq> None \<Longrightarrow> parent_in i (plug ctx t) = parent_in i t"
proof (induction ctx t rule: plug.induct)
  case (1 t)
  then show ?case by simp
next
  case (2 j e before after ctx t)
  then have r: "nodeId (plug ctx t) \<noteq> i"
    by (intro plug_root_differs) auto
  have tb: "i \<notin> nodeId ` set before" "i \<notin> nodeId ` set after"
    using 2(3) top_ids_subset [of before] top_ids_subset [of after]
    by (auto simp: descendants_list_append)
  from 2 r tb show ?case
    by (auto simp: parent_in_list_append parent_notin descendants_list_append image_Un
        split: option.splits)
qed

lemma isFontMarker_children: "isFontMarker (Elem j e cs) = isFontMarker (Elem j e [])"
  by simp

lemma isSpanMarker_children: "isSpanMarker (Elem j e cs) = isSpanMarker (Elem j e [])"
  by simp

lemma filter_plug:
  assumes "list_all (\<lambda>n. \<not> isMarker n) (frame_elems ctx)"
    and "list_all (\<lambda>n. \<not> isMarker n) (descendants_list (frame_siblings ctx))"
  shows "filter isFontMarker (plug ctx t # descendants (plug ctx t)) = filter isFontMarker (t # descendants t)
       \<and> filter isSpanMarker (plug ctx t # descendants (plug ctx t)) = filter isSpanMarker (t # descendants t)"
  using assms
proof (induction ctx t rule: plug.induct)
  case (1 t)
  then show ?case by simp
next
  case (2 j e before after ctx t)
  then have nb: "list_all (\<lambda>n. \<not> isMarker n) (descendants_list before)"
    and na: "list_all (\<lambda>n. \<not> isMarker n) (descendants_list after)"
    and nf: "\<not> isFontMarker (Elem j e [])" "\<not> isSpanMarker (Elem j e [])"
    by (auto simp: descendants_list_append isMarker_def)
  have ih: "filter isFontMarker (plug ctx t # descendants (plug ctx t)) = filter isFontMarker (t # descendants t)"
    "filter isSpanMarker (plug ctx t # descendants (plug ctx t)) = filter isSpanMarker (t # descendants t)"
    using 2 by (auto simp: descendants_list_append)
  have f: "\<not> isFontMarker (Elem j e (before @ plug ctx t # after))"
    "\<not> isSpanMarker (Elem j e (before @ plug ctx t # after))"
    using nf by simp_all
  have "filter isFontMarker (Elem j e (before @ plug ctx t # after)
            # descendants (Elem j e (before @ plug ctx t # after)))
        = filter isFontMarker (descendants_list before)
          @ filter isFontMarker (plug ctx t # descendants (plug ctx t))
          @ filter isFontMarker (descendants_list after)"
    using f(1) by (simp add: descendants_list_append del: isFontMarker.simps)
  moreover have "filter isSpanMarker (Elem j e (before @ plug ctx t # after)
            # descendants (Elem j e (before @ plug ctx t # after)))
        = filter isSpanMarker (descendants_list before)
          @ filter isSpanMarker (plug ctx t # descendants (plug ctx t))
          @ filter isSpanMarker (descendants_list after)"
    using f(2) by (simp add: descendants_list_append del: isSpanMarker.simps)
  ultimately show ?case
    using filter_no_markers [OF nb] filter_no_markers [OF na]
    by (simp only: plug.simps ih append_Nil append_Nil2)
qed

lemma plug_append: "plug (outer @ inner) t = plug outer (plug inner t)"
  by (induction outer t rule: plug.induct) auto

lemma find_node_self: "find_node (nodeId n) n = Some n"
  by (cases n) auto

lemma filter_plug_descendants:
  assumes "list_all (\<lambda>n. \<not> isMarker n) (frame_elems ctx)"
    and "list_all (\<lambda>n. \<not> isMarker n) (descendants_list (frame_siblings ctx))"
    and "\<not> isMarker t"
  shows "filter isFontMarker (descendants (plug ctx t)) = filter isFontMarker (descendants t)
       \<and> filter isSpanMarker (descendants (plug ctx t)) = filter isSpanMarker (descendants t)"
proof (cases ctx)
  case Nil
  then show ?thesis by simp
next
  case (Cons f rest)
  obtain j e before after where f: "f = (j, e, before, after)"
    by (cases f)
  have nb: "list_all (\<lambda>n. \<not> isMarker n) (descendants_list before)"
    and na: "list_all (\<lambda>n. \<not> isMarker n) (descendants_list after)"
    and nr: "list_all (\<lambda>n. \<not> isMarker n) (frame_elems rest)"
      "list_all (\<lambda>n. \<not> isMarker n) (descendants_list (frame_siblings rest))"
    using assms(1,2) Cons f by (auto simp: descendants_list_append)
  have t: "filter isFontMarker (t # descendants t) = filter isFontMarker (descendants t)"
    "filter isSpanMarker (t # descendants t) = filter isSpanMarker (descendants t)"
    using assms(3) by (auto simp: isMarker_def)
  have "descendants (plug ctx t)
      = descendants_list before @ (plug rest t # descendants (plug rest t)) @ descendants_list after"
    using Cons f by (simp add: descendants_list_append)
  then show ?thesis
    using filter_no_markers [OF nb] filter_no_markers [OF na] filter_plug [OF nr, of t] t
    by (simp only: filter_append append_Nil append_Nil2)
qed

lemma reuse_parent_step:
  fixes kids dt :: "node list"
  assumes ids: "p \<noteq> m"
    and fresh_m: "m \<notin> nodeId ` set (frame_elems ctx)"
      "m \<notin> nodeId ` set (descendants_list (frame_siblings ctx))"
      "m \<notin> nodeId ` set (descendants_list dt)"
    and fresh_p: "p \<notin> nodeId ` set (frame_elems ctx)"
      "p \<notin> nodeId ` set (descendants_list (frame_siblings ctx))"
      "p \<notin> nodeId ` set (descendants_list dt)"
    and wrapper: "tagName pe = ''SPAN''" "size_truthy (fontSize pe)"
    and d: "d = \<lparr>document = plug ctx (Elem p pe [Elem m me kids]), detached = dt, nextId = k\<rparr>"
  shows "processMarker sz (d, ns) m =
           (\<lparr>document = plug ctx (Elem p (set_px sz pe) (clean_list kids)),
             detached = dt @ [Elem m me []], nextId = k\<rparr>, ns @ [p])"
proof -
  let ?m' = "Elem m me (clean_list kids)"
  let ?d1 = "\<lparr>document = plug ctx (Elem p pe [?m']), detached = dt, nextId = k\<rparr>"
  have d1: "forest_modify m cleanDescendants d = ?d1"
    using ids fresh_m by (simp add: forest_modify_def d modify_plug modify_notin)
  have look: "lookup ?d1 m = Some ?m'"
    using ids fresh_m by (simp add: lookup_def find_plug)
  have par: "parentNode ?d1 m = Some (Elem p pe [?m'])"
    using ids fresh_m by (simp add: parentNode_def parent_plug)
  have fs: "isParentFontSpan (Some (Elem p pe [?m']))"
    using wrapper by simp
  have d2: "forest_modify p (set_px_node sz) ?d1
      = \<lparr>document = plug ctx (Elem p (set_px sz pe) [?m']), detached = dt, nextId = k\<rparr>"
    using fresh_p by (simp add: forest_modify_def modify_plug modify_notin)
  have d3: "forest_splice m (clean_list kids)
       \<lparr>document = plug ctx (Elem p (set_px sz pe) [?m']), detached = dt, nextId = k\<rparr>
      = \<lparr>document = plug ctx (Elem p (set_px sz pe) (clean_list kids)), detached = dt, nextId = k\<rparr>"
    using ids fresh_m by (simp add: forest_splice_def splice_plug map_splice_notin)
  show ?thesis
    unfolding processMarker_def prod.case Let_def d1 look par option.case
    by (simp only: fs if_True option.case nodeId.simps d2 d3 childNodes.simps emptied.simps)
      simp
qed

lemma lower_names:
  "map ascii_lower ''font'' \<noteq> map ascii_lower ''span''"
  "map ascii_lower ''SPAN'' \<noteq> map ascii_lower ''font''"
  by code_simp+

lemma one_type: "matches_type ''font'' e \<Longrightarrow> \<not> matches_type ''span'' e"
  using lower_names(1) by (auto simp: matches_type_def split: if_splits)

lemma span_not_font: "tagName e = ''SPAN'' \<Longrightarrow> \<not> matches_type ''font'' e"
  using lower_names(2) by (auto simp: matches_type_def split: if_splits)

lemma marker_cases:
  "isMarker (Elem m me kids) \<Longrightarrow>
     (isFontMarker (Elem m me kids) \<and> \<not> isSpanMarker (Elem m me kids))
     \<or> (\<not> isFontMarker (Elem m me kids) \<and> isSpanMarker (Elem m me kids))"
  using one_type [of me] by (auto simp: isMarker_def)

lemma toReplace_single:
  assumes "list_all (\<lambda>n. \<not> isMarker n) (frame_elems inner)"
    and "list_all (\<lambda>n. \<not> isMarker n) (descendants_list (frame_siblings inner))"
    and "list_all (\<lambda>n. \<not> isMarker n) (descendants_list kids)"
    and "\<not> isMarker (Elem p pe [Elem m me kids])"
    and "isMarker (Elem m me kids)"
    and "c = nodeId (plug inner (Elem p pe [Elem m me kids]))"
    and "c \<notin> nodeId ` set (frame_elems outer)"
    and "c \<notin> nodeId ` set (descendants_list (frame_siblings outer))"
    and "d = \<lparr>document = plug (outer @ inner) (Elem p pe [Elem m me kids]), detached = dt, nextId = k\<rparr>"
  shows "toReplace d c = [m]"
proof -
  let ?X = "Elem p pe [Elem m me kids]"
  have "find_node c (plug outer (plug inner ?X)) = find_node c (plug inner ?X)"
    using assms(6,7,8) by (intro find_plug) (simp_all add: find_node_self)
  then have look: "lookup d c = Some (plug inner ?X)"
    using assms(6,9) by (simp add: lookup_def plug_append find_node_self)
  have m: "filter isFontMarker (descendants ?X) @ filter isSpanMarker (descendants ?X) = [Elem m me kids]"
    using filter_no_markers [OF assms(3)] marker_cases [OF assms(5)]
    by (auto simp del: isFontMarker.simps isSpanMarker.simps)
  note fp = filter_plug_descendants [OF assms(1,2,4)]
  have "toReplace d c
      = map nodeId (filter isFontMarker (descendants (plug inner ?X)))
        @ map nodeId (filter isSpanMarker (descendants (plug inner ?X)))"
    by (simp only: toReplace_def querySelectorAll_def look option.case)
  also have "\<dots> = map nodeId (filter isFontMarker (descendants ?X) @ filter isSpanMarker (descendants ?X))"
    by (simp only: fp [THEN conjunct1] fp [THEN conjunct2] map_append)
  also have "\<dots> = [m]"
    by (simp only: m list.map nodeId.simps)
  finally show ?thesis .
qed

text \<open>
  The parent-reuse path, once the loop reaches it. Let the document hold, anywhere below
  the searched container and among nodes without markers, a SPAN that declares a font size
  and whose sole child is the marked element. Then the loop over \<open>toReplace\<close> with a
  valid size \<open>s2\<close> leaves this: the same SPAN in the same place, now with font size
  \<open>s2\<close>, holding the children of the marker directly; the marker is out of the document;
  no node was created; and \<open>newSpans\<close> is that one SPAN. For any marked element, a node
  is created exactly when \<open>isParentFontSpan\<close> is false.
\<close>

lemma reuse_path_single_wrapper:
  fixes kids dt :: "node list"
  assumes ids: "p \<noteq> m"
    and fresh_m: "m \<notin> nodeId ` set (frame_elems (outer @ inner))"
      "m \<notin> nodeId ` set (descendants_list (frame_siblings (outer @ inner)))"
      "m \<notin> nodeId ` set (descendants_list dt)"
    and fresh_p: "p \<notin> nodeId ` set (frame_elems (outer @ inner))"
      "p \<notin> nodeId ` set (descendants_list (frame_siblings (outer @ inner)))"
      "p \<notin> nodeId ` set (descendants_list dt)"
    and container: "c = nodeId (plug inner (Elem p pe [Elem m me kids]))"
      "c \<notin> nodeId ` set (frame_elems outer)"
      "c \<notin> nodeId ` set (descendants_list (frame_siblings outer))"
    and others: "list_all (\<lambda>n. \<not> isMarker n) (frame_elems inner)"
      "list_all (\<lambda>n. \<not> isMarker n) (descendants_list (frame_siblings inner))"
      "list_all (\<lambda>n. \<not> isMarker n) (descendants_list kids)"
    and wrapper: "tagName pe = ''SPAN''" "size_truthy (fontSize pe)" "\<not> style_mentions markerFont pe"
    and marker: "isMarker (Elem m me kids)"
    and valid: "css_valid s2"
    and d: "d = \<lparr>document = plug (outer @ inner) (Elem p pe [Elem m me kids]),
                 detached = dt, nextId = k\<rparr>"
  shows "replaceMarkers s2 d c =
           (\<lparr>document = plug (outer @ inner) (Elem p (pe\<lparr>fontSize := Px s2\<rparr>) (clean_list kids)),
             detached = dt @ [Elem m me []], nextId = k\<rparr>, [p])
         \<and> (\<forall>el mk ns. lookup (forest_modify el cleanDescendants d) el = Some mk \<longrightarrow>
               (nextId (fst (processMarker s2 (d, ns) el)) = nextId d)
                 = isParentFontSpan (parentNode (forest_modify el cleanDescendants d) el))"
proof -
  have "\<not> isMarker (Elem p pe [Elem m me kids])"
    using wrapper span_not_font [of pe] by (simp add: isMarker_def)
  then have "toReplace d c = [m]"
    using others marker container d by (intro toReplace_single)
  moreover have "set_px s2 pe = pe\<lparr>fontSize := Px s2\<rparr>"
    using valid by (simp add: set_px_def)
  ultimately have "replaceMarkers s2 d c =
           (\<lparr>document = plug (outer @ inner) (Elem p (pe\<lparr>fontSize := Px s2\<rparr>) (clean_list kids)),
             detached = dt @ [Elem m me []], nextId = k\<rparr>, [p])"
    using reuse_parent_step [OF ids fresh_m fresh_p wrapper(1,2) d, of s2 "[]"]
    by (simp add: replaceMarkers_def)
  then show ?thesis
    using processMarker_allocates by blast
qed

lemma reuse_path_on_x:
  "replaceMarkers (Num 14)
     \<lparr>document = Elem 0 (element ''BODY'') [Elem 1 editable_div [Elem 3 marker_font [Text 2 ''x'']]],
      detached = [], nextId = 4\<rparr> 1
     = (\<lparr>document = Elem 0 (element ''BODY'')
           [Elem 1 editable_div [Elem 4 (new_span\<lparr>fontSize := Px (Num 14)\<rparr>) [Text 5 ''x'']]],
         detached = [Elem 3 marker_font [Text 2 ''x'']], nextId = 6\<rparr>, [4])
   \<and> replaceMarkers (Num 18)
     \<lparr>document = Elem 0 (element ''BODY'')
         [Elem 1 editable_div
           [Elem 4 (new_span\<lparr>fontSize := Px (Num 14)\<rparr>) [Elem 6 marker_font [Text 5 ''x'']]]],
      detached = [Elem 3 marker_font [Text 2 ''x'']], nextId = 7\<rparr> 1
     = (\<lparr>document = Elem 0 (element ''BODY'')
           [Elem 1 editable_div [Elem 4 (new_span\<lparr>fontSize := Px (Num 18)\<rparr>) [Text 5 ''x'']]],
         detached = [Elem 3 marker_font [Text 2 ''x''], Elem 6 marker_font []], nextId = 7\<rparr>, [4])"
proof -
  have first: "replaceMarkers (Num 14)
     \<lparr>document = Elem 0 (element ''BODY'') [Elem 1 editable_div [Elem 3 marker_font [Text 2 ''x'']]],
      detached = [], nextId = 4\<rparr> 1
     = (\<lparr>document = Elem 0 (element ''BODY'')
           [Elem 1 editable_div [Elem 4 (new_span\<lparr>fontSize := Px (Num 14)\<rparr>) [Text 5 ''x'']]],
         detached = [Elem 3 marker_font [Text 2 ''x'']], nextId = 6\<rparr>, [4])"
    by code_simp
  have m: "isMarker (Elem 6 marker_font [Text 5 ''x''])"
    by code_simp
  have w: "tagName (new_span\<lparr>fontSize := Px (Num 14)\<rparr>) = ''SPAN''"
    "size_truthy (fontSize (new_span\<lparr>fontSize := Px (Num 14)\<rparr>))"
    "\<not> style_mentions markerFont (new_span\<lparr>fontSize := Px (Num 14)\<rparr>)"
    by (simp_all add: new_span_def style_mentions_def markerFont_def)
  have o: "list_all (\<lambda>n. \<not> isMarker n) (frame_elems [(1, editable_div, [], [])])"
    by code_simp
  have second: "replaceMarkers (Num 18)
     \<lparr>document = plug ([(0, element ''BODY'', [], [])] @ [(1, editable_div, [], [])])
         (Elem 4 (new_span\<lparr>fontSize := Px (Num 14)\<rparr>) [Elem 6 marker_font [Text 5 ''x'']]),
      detached = [Elem 3 marker_font [Text 2 ''x'']], nextId = 7\<rparr> 1
     = (\<lparr>document = plug ([(0, element ''BODY'', [], [])] @ [(1, editable_div, [], [])])
           (Elem 4 (new_span\<lparr>fontSize := Px (Num 14), fontSize := Px (Num 18)\<rparr>)
             (clean_list [Text 5 ''x''])),
         detached = [Elem 3 marker_font [Text 2 ''x'']] @ [Elem 6 marker_font []], nextId = 7\<rparr>, [4])"
    using reuse_path_single_wrapper [where c = 1 and p = 4 and m = 6
        and outer = "[(0, element ''BODY'', [], [])]" and inner = "[(1, editable_div, [], [])]"
        and dt = "[Elem 3 marker_font [Text 2 ''x'']]" and kids = "[Text 5 ''x'']"
        and pe = "new_span\<lparr>fontSize := Px (Num 14)\<rparr>" and me = marker_font and ?s2.0 = "Num 18"
        and k = 7, OF _ _ _ _ _ _ _ _ _ _ o _ _ w m]
    by (simp add: isMarker_def)
  from first second show ?thesis by simp
qed

subsection \<open>Resizing the same run twice\<close>


subsection \<open>Markers that survive\<close>

text \<open>
  C1 says that no marked element is left in the editable surface when \<open>setFontSize\<close>
  returns. The code leaves one in two situations. In the service, the search runs below
  the element of the saved range's common ancestor: when the browser marks the very span
  that encloses the selected text, that span is the container, \<open>querySelectorAll\<close> does
  not look at the container itself, and the marker stays (the component, which searches
  the whole editor, replaces it). In both variants, a marker span inside another marked
  element is copied into the new wrapper by \<open>innerHTML\<close>: step 1 removes \<open>face\<close> from
  FONT descendants but leaves the font family of SPAN descendants, and the copy is not in
  \<open>toReplace\<close>.
\<close>

theorem markers_survive_setFontSize:
  "\<not> raised (setFontSize sized_prims (Num 18) (service_saved1, sized_page))
   \<and> markersBelow (page (snd (state_of (setFontSize sized_prims (Num 18) (service_saved1, sized_page))))) 1
       = [Elem 2 (sized_span\<lparr>styleRest := ''font-family: cdk-marker-font;''\<rparr>) [Text 3 ''x'']]
   \<and> markersBelow (page (snd (state_of (editor_setFontSize sized_prims (Num 18)
         (component_saved1, sized_page))))) 1 = []
   \<and> \<not> raised (editor_setFontSize nested_prims (Num 18) (component_saved1, ab_page))
   \<and> markersBelow (page (snd (state_of (editor_setFontSize nested_prims (Num 18)
         (component_saved1, ab_page))))) 1
       = [Elem 9 marker_span [Text 10 ''b'']]"
  by (intro conjI; code_simp)

subsection \<open>The order of the wrappers\<close>

text \<open>
  C7 says that the wrappers are collected in document order, also when both forms of the
  marker occur, and that the selection is rebuilt from before the first to after the last.
  \<open>toReplace\<close> lists the FONT matches before the SPAN matches: with a marker span that
  precedes a marker FONT, \<open>newSpans\<close> is \<open>[6, 8]\<close> while the wrappers stand in the order
  8, 6 in the document, and the rebuilt range, set to start before 6 and to end after 8,
  collapses between them instead of spanning both.
\<close>

theorem wrappers_out_of_order:
  "snd (rewrite_page (Num 18) 1
      (snd (state_of (editor_markSelection mixed_prims
         (editor_restoreSelection (component_saved1, mixed_page)))))) = [6, 8]
   \<and> \<not> raised (editor_setFontSize mixed_prims (Num 18) (component_saved1, mixed_page))
   \<and> map_option (map nodeId \<circ> childNodes)
        (lookup (page (snd (state_of (editor_setFontSize mixed_prims (Num 18)
           (component_saved1, mixed_page))))) 1) = Some [8, 6]
   \<and> selRange (snd (state_of (editor_setFontSize mixed_prims (Num 18)
        (component_saved1, mixed_page)))) = Some 2
   \<and> range_at (snd (state_of (editor_setFontSize mixed_prims (Num 18)
        (component_saved1, mixed_page)))) 2 = Some \<lparr>rangeStart = (1, 1), rangeEnd = (1, 1)\<rparr>
   \<and> \<not> raised (setFontSize mixed_prims (Num 18) (service_saved1, mixed_page))
   \<and> selRange (snd (state_of (setFontSize mixed_prims (Num 18) (service_saved1, mixed_page)))) = Some 2
   \<and> range_at (snd (state_of (setFontSize mixed_prims (Num 18) (service_saved1, mixed_page)))) 2
       = Some \<lparr>rangeStart = (1, 1), rangeEnd = (1, 1)\<rparr>"
  by (intro conjI; code_simp)

end
